theory Spec2Isabelle
  imports Complex_Main "HOL-Library.Char_ord" "HOL-Library.List_Lexorder" "HOL-Library.AList"
begin

section \<open>JavaScript values\<close>

text \<open>
  A JavaScript string is represented by its UTF-8 bytes (\<^typ>\<open>string\<close>), so that
  \<^verbatim>\<open>TextEncoder.encode\<close> reads the characters off as bytes. A JavaScript number is
  \<open>NaN\<close>, an infinity, or a finite binary64 value, kept as the rational it denotes (so
  \<open>-0\<close> and \<open>0\<close> are one value, as under \<^verbatim>\<open>===\<close>).
\<close>

datatype jsnum = NaN | PosInf | NegInf | Num rat

text \<open>The number of binary digits of a natural number.\<close>

fun bit_length :: "nat \<Rightarrow> nat" where
  "bit_length n = (if n = 0 then 0 else Suc (bit_length (n div 2)))"

declare bit_length.simps [simp del]

text \<open>The Number value of a mathematical integer, as \<^verbatim>\<open>Number(bigint)\<close> and the last step of
  \<^verbatim>\<open>parseInt\<close> compute it: the integer itself below \<open>2^53\<close>, otherwise the nearest value with
  53 significant binary digits, a tie going to the even one, and an infinity once the
  rounded magnitude reaches \<open>2^1024\<close>.\<close>

definition to_binary64 :: "int \<Rightarrow> jsnum" where
  "to_binary64 n =
     (let a = nat \<bar>n\<bar>
      in if a < 2 ^ 53 then Num (of_int n)
         else (let e = bit_length a - 53;
                   q = a div 2 ^ e;
                   r = a mod 2 ^ e;
                   half = 2 ^ (e - 1);
                   m = (if half < r \<or> (r = half \<and> odd q) then q + 1 else q);
                   v = m * 2 ^ e
               in if 2 ^ 1024 \<le> v then (if n < 0 then NegInf else PosInf)
                  else Num (of_int (if n < 0 then - int v else int v))))"

text \<open>The comparison \<^verbatim>\<open>x <= 0\<close>.\<close>

fun le_zero :: "jsnum \<Rightarrow> bool" where
  "le_zero NaN = False"
| "le_zero PosInf = False"
| "le_zero NegInf = True"
| "le_zero (Num q) = (q \<le> 0)"

datatype js_value =
    BigIntV int       \<comment> \<open>typeof value === 'bigint'\<close>
  | NumberV jsnum     \<comment> \<open>typeof value === 'number'\<close>
  | StringV string    \<comment> \<open>typeof value === 'string'\<close>
  | OtherV            \<comment> \<open>undefined, null, boolean, object, ...\<close>

definition is_digit :: "char \<Rightarrow> bool" where
  "is_digit c = (let n = (of_char c :: nat) in 48 \<le> n \<and> n \<le> 57)"

definition digit_val :: "char \<Rightarrow> nat" where
  "digit_val c = of_char c - 48"

text \<open>The value of a string of decimal digits.\<close>

definition dec_val :: "string \<Rightarrow> nat" where
  "dec_val s = foldl (\<lambda>a c. a * 10 + digit_val c) 0 s"

text \<open>The test \<^verbatim>\<open>/^\d+$/.test(value)\<close>.\<close>

definition numeric :: "string \<Rightarrow> bool" where
  "numeric s = (s \<noteq> [] \<and> list_all is_digit s)"

section \<open>Merkle tree utility (merkle-utils)\<close>

text \<open>
  The utility keeps every node of a tree as the canonical decimal string of a non-negative
  big integer: leaves are normalised by \<^verbatim>\<open>BigInt(leaf).toString()\<close>, and every parent is
  the output of \<^verbatim>\<open>poseidon.F.toString\<close>. Such a string is represented here by the natural
  number it denotes, so the normalisation is the identity. The Poseidon permutation is
  outside the repository: the tree functions take the two-input hash of two nodes,
  \<^verbatim>\<open>poseidonHash2\<close>, as the parameter \<open>H\<close>.
\<close>

type_synonym fe = nat

datatype merkle_error =
    EmptyLeaves            \<comment> \<open>Cannot build Merkle tree from empty leaves\<close>
  | InvalidTree            \<comment> \<open>Invalid tree object\<close>
  | IndexOutOfBounds       \<comment> \<open>Leaf index out of bounds\<close>
  | InvalidProofStructure  \<comment> \<open>Invalid proof structure\<close>
  | UndefinedToBigInt      \<comment> \<open>TypeError of \<^verbatim>\<open>BigInt(undefined)\<close>\<close>
  | FieldsRequired         \<comment> \<open>fields and fieldOrder are required\<close>
  | FieldNotFound string   \<comment> \<open>Field not found in credential fields\<close>
  | CannotConvert          \<comment> \<open>Cannot convert value of type ... to field element\<close>
  | NotAnInteger           \<comment> \<open>RangeError of \<^verbatim>\<open>BigInt(x)\<close> on a number that is not an integer\<close>

record tree =
  layers :: "fe list list"
  root :: "fe option"

record merkle_proof =
  pathElements :: "fe option list"
  pathIndices :: "nat list"

text \<open>Reading a JavaScript array: an index past the end gives \<^verbatim>\<open>undefined\<close>, here \<open>None\<close>.\<close>

definition elem :: "'a list \<Rightarrow> nat \<Rightarrow> 'a option" where
  "elem xs i = (if i < length xs then Some (xs ! i) else None)"

text \<open>The inner \<^verbatim>\<open>for (i = 0; i < currentLayer.length; i += 2)\<close> loop of buildMerkleTree:
  a last node without a right neighbour is hashed with itself.\<close>

fun nextLayer :: "(fe \<Rightarrow> fe \<Rightarrow> fe) \<Rightarrow> fe list \<Rightarrow> fe list" where
  "nextLayer H (left # right # rest) = H left right # nextLayer H rest"
| "nextLayer H [left] = [H left left]"
| "nextLayer H [] = []"

text \<open>The \<^verbatim>\<open>while (currentLayer.length > 1)\<close> loop; \<open>ls\<close> is the array \<^verbatim>\<open>layers\<close>.\<close>

function build_loop :: "(fe \<Rightarrow> fe \<Rightarrow> fe) \<Rightarrow> fe list \<Rightarrow> fe list list \<Rightarrow> fe list \<times> fe list list" where
  "build_loop H currentLayer ls =
     (if length currentLayer > 1
      then (let next = nextLayer H currentLayer in build_loop H next (ls @ [next]))
      else (currentLayer, ls))"
  by pat_completeness auto
termination
proof (relation "measure (\<lambda>(H, cur, ls). length cur)")
  fix H :: "fe \<Rightarrow> fe \<Rightarrow> fe" and currentLayer :: "fe list" and ls :: "fe list list" and x
  assume "1 < length currentLayer" and "x = nextLayer H currentLayer"
  moreover have "length (nextLayer H xs) = (length xs + 1) div 2" for xs
    by (induction H xs rule: nextLayer.induct) auto
  ultimately show "((H, x, ls @ [x]), H, currentLayer, ls) \<in> measure (\<lambda>(H, cur, ls). length cur)"
    by simp
qed simp

declare build_loop.simps [simp del]

definition buildMerkleTree :: "(fe \<Rightarrow> fe \<Rightarrow> fe) \<Rightarrow> fe list \<Rightarrow> merkle_error + tree" where
  "buildMerkleTree H leaves =
     (if leaves = [] then Inl EmptyLeaves
      else (let (currentLayer, ls) = build_loop H leaves [leaves]
            in Inr \<lparr>layers = ls, root = elem currentLayer 0\<rparr>))"

definition getRootHash :: "tree \<Rightarrow> merkle_error + fe" where
  "getRootHash t = (case root t of None \<Rightarrow> Inl InvalidTree | Some r \<Rightarrow> Inr r)"

text \<open>The \<^verbatim>\<open>for (level = 0; level < tree.layers.length - 1; level++)\<close> loop of
  generateMerkleProof, with its three variables.\<close>

function proof_loop ::
  "fe list list \<Rightarrow> nat \<Rightarrow> nat \<Rightarrow> fe option list \<Rightarrow> nat list \<Rightarrow> fe option list \<times> nat list" where
  "proof_loop ls level currentIndex pels pidx =
     (if level + 1 < length ls
      then (let currentLayer = ls ! level;
                isLeftChild = (currentIndex mod 2 = 0);
                siblingIndex = (if isLeftChild then currentIndex + 1 else currentIndex - 1);
                sibling =
                  (if siblingIndex < length currentLayer
                   then elem currentLayer siblingIndex
                   else elem currentLayer currentIndex)
            in proof_loop ls (level + 1) (currentIndex div 2)
                 (pels @ [sibling]) (pidx @ [if isLeftChild then 0 else 1]))
      else (pels, pidx))"
  by pat_completeness auto
termination
  by (relation "measure (\<lambda>(ls, level, i, pels, pidx). length ls - level)") auto

declare proof_loop.simps [simp del]

definition generateMerkleProof :: "tree \<Rightarrow> int \<Rightarrow> merkle_error + merkle_proof" where
  "generateMerkleProof t leafIndex =
     (if layers t = [] then Inl InvalidTree
      else if leafIndex < 0 \<or> leafIndex \<ge> int (length (layers t ! 0)) then Inl IndexOutOfBounds
      else (let (pels, pidx) = proof_loop (layers t) 0 (nat leafIndex) [] []
            in Inr \<lparr>pathElements = pels, pathIndices = pidx\<rparr>))"

text \<open>The loop of verifyMerkleProof from position \<open>i\<close> on; \<^verbatim>\<open>BigInt(undefined)\<close> throws.\<close>

function verify_loop ::
  "(fe \<Rightarrow> fe \<Rightarrow> fe) \<Rightarrow> fe option list \<Rightarrow> nat list \<Rightarrow> nat \<Rightarrow> fe \<Rightarrow> merkle_error + fe" where
  "verify_loop H pels pidx i currentHash =
     (if i < length pels
      then (case pels ! i of
              None \<Rightarrow> Inl UndefinedToBigInt
            | Some sibling \<Rightarrow>
                (if elem pidx i = Some 0
                 then verify_loop H pels pidx (i + 1) (H currentHash sibling)
                 else verify_loop H pels pidx (i + 1) (H sibling currentHash)))
      else Inr currentHash)"
  by pat_completeness auto
termination
  by (relation "measure (\<lambda>(H, pels, pidx, i, c). length pels - i)") auto

declare verify_loop.simps [simp del]

definition verifyMerkleProof ::
  "(fe \<Rightarrow> fe \<Rightarrow> fe) \<Rightarrow> fe \<Rightarrow> merkle_proof \<Rightarrow> fe \<Rightarrow> merkle_error + bool" where
  "verifyMerkleProof H leaf p r =
     (if length (pathElements p) \<noteq> length (pathIndices p) then Inl InvalidProofStructure
      else (case verify_loop H (pathElements p) (pathIndices p) 0 leaf of
              Inl e \<Rightarrow> Inl e
            | Inr currentHash \<Rightarrow> Inr (currentHash = r)))"

subsection \<open>Field encoding and the credential root\<close>

text \<open>The loop \<^verbatim>\<open>result = result * 256n + BigInt(bytes[i])\<close> over the first
  \<^verbatim>\<open>Math.min(bytes.length, 31)\<close> bytes.\<close>

definition bytes_val :: "string \<Rightarrow> nat" where
  "bytes_val bytes = foldl (\<lambda>result b. result * 256 + of_char b) 0 (take (min (length bytes) 31) bytes)"

fun valueToFieldElement :: "js_value \<Rightarrow> merkle_error + int" where
  "valueToFieldElement (BigIntV n) = Inr n"
| "valueToFieldElement (NumberV NaN) = Inl NotAnInteger"
| "valueToFieldElement (NumberV PosInf) = Inl NotAnInteger"
| "valueToFieldElement (NumberV NegInf) = Inl NotAnInteger"
| "valueToFieldElement (NumberV (Num q)) =
     (if q = of_int \<lfloor>q\<rfloor> then Inr \<lfloor>q\<rfloor> else Inl NotAnInteger)"
| "valueToFieldElement (StringV s) =
     (if numeric s then Inr (int (dec_val s)) else Inr (int (bytes_val s)))"
| "valueToFieldElement OtherV = Inl CannotConvert"

text \<open>\<open>P\<close> is circomlibjs's \<^verbatim>\<open>poseidon\<close> followed by \<^verbatim>\<open>poseidon.F.toString\<close>.\<close>

definition poseidonHash :: "(int list \<Rightarrow> fe) \<Rightarrow> js_value \<Rightarrow> merkle_error + fe" where
  "poseidonHash P v =
     (case valueToFieldElement v of Inl e \<Rightarrow> Inl e | Inr fieldElement \<Rightarrow> Inr (P [fieldElement]))"

text \<open>poseidonHash2 on two nodes of a tree: a decimal string passes \<^verbatim>\<open>/^\d+$/\<close> and is
  converted by \<^verbatim>\<open>BigInt\<close>.\<close>

definition poseidonHash2 :: "(int list \<Rightarrow> fe) \<Rightarrow> fe \<Rightarrow> fe \<Rightarrow> fe" where
  "poseidonHash2 P left right = P [int left, int right]"

text \<open>computeLeafHash with a non-negative integer salt (default 0).\<close>

definition computeLeafHash :: "(int list \<Rightarrow> fe) \<Rightarrow> js_value \<Rightarrow> nat \<Rightarrow> merkle_error + fe" where
  "computeLeafHash P fieldValue salt =
     (if salt \<noteq> 0
      then (case valueToFieldElement fieldValue of
              Inl e \<Rightarrow> Inl e
            | Inr leftField \<Rightarrow> Inr (P [leftField, int salt]))
      else poseidonHash P fieldValue)"

text \<open>The loop \<^verbatim>\<open>for (const fieldName of fieldOrder)\<close> of computeCredentialRoot. The map
  \<open>flds\<close> holds every property that \<^verbatim>\<open>fieldName in fields\<close> finds.\<close>

fun leaf_loop ::
  "(int list \<Rightarrow> fe) \<Rightarrow> (string \<rightharpoonup> js_value) \<Rightarrow> string list \<Rightarrow> merkle_error + fe list" where
  "leaf_loop P flds [] = Inr []"
| "leaf_loop P flds (fieldName # rest) =
     (case flds fieldName of
        None \<Rightarrow> Inl (FieldNotFound fieldName)
      | Some v \<Rightarrow>
          (case computeLeafHash P v 0 of
             Inl e \<Rightarrow> Inl e
           | Inr leafHash \<Rightarrow>
               (case leaf_loop P flds rest of
                  Inl e \<Rightarrow> Inl e
                | Inr leaves \<Rightarrow> Inr (leafHash # leaves))))"

record credential_root =
  rootHash :: "fe option"
  merkleTree :: tree
  leafHashes :: "fe list"

definition computeCredentialRoot ::
  "(int list \<Rightarrow> fe) \<Rightarrow> (string \<rightharpoonup> js_value) \<Rightarrow> string list \<Rightarrow> merkle_error + credential_root" where
  "computeCredentialRoot P flds fieldOrder =
     (if fieldOrder = [] then Inl FieldsRequired
      else (case leaf_loop P flds fieldOrder of
              Inl e \<Rightarrow> Inl e
            | Inr ls \<Rightarrow>
                (case buildMerkleTree (poseidonHash2 P) ls of
                   Inl e \<Rightarrow> Inl e
                 | Inr t \<Rightarrow> Inr \<lparr>rootHash = root t, merkleTree = t, leafHashes = ls\<rparr>)))"

section \<open>Identity chaincode\<close>

text \<open>
  The repository holds the contract twice. The file \<^verbatim>\<open>identity-cc/lib/identity.js\<close> reads
  the three-signal convention \<^verbatim>\<open>[minimumAge, credentialHash, isOfAgeFlag]\<close> in VerifyAge and
  stamps its records with \<^verbatim>\<open>new Date()\<close>; the second copy reads the single-signal convention
  \<^verbatim>\<open>[isAdult]\<close> and stamps its records with the transaction timestamp. IssueCredential,
  RevokeCredential and VerifyProof differ in the timestamp expression only, and take the
  copy as their first argument.
\<close>

subsection \<open>JSON values and the host\<close>

text \<open>A parsed JSON document. Its numbers are finite; a literal that \<^verbatim>\<open>JSON.parse\<close> reads as
  an infinity is not represented.\<close>

datatype json =
    JNull
  | JBool bool
  | JNum rat
  | JStr string
  | JArr "json list"
  | JObj "(string \<times> json) list"

text \<open>A number as \<^verbatim>\<open>JSON.stringify\<close> writes it into a document: \<open>NaN\<close> and the infinities
  become \<^verbatim>\<open>null\<close>.\<close>

fun stringify_number :: "jsnum \<Rightarrow> json" where
  "stringify_number (Num q) = JNum q"
| "stringify_number x = JNull"

text \<open>
  What the contract calls and does not define: \<^verbatim>\<open>JSON.parse\<close> (\<open>None\<close> when it throws), the
  bundled verification key (\<open>None\<close> when it cannot be read), \<^verbatim>\<open>snarkjs.groth16.verify\<close>
  (\<open>None\<close> when it throws), \<^verbatim>\<open>Number\<close> on a string that \<^verbatim>\<open>BigInt\<close> rejects, the wall clock
  of the executing node as \<^verbatim>\<open>new Date().toISOString()\<close> gives it, and
  \<^verbatim>\<open>new Date(ms).toISOString()\<close>.
\<close>

record host =
  JSON_parse :: "string \<Rightarrow> json option"
  verification_key :: "json option"
  groth16_verify :: "json \<Rightarrow> json \<Rightarrow> json \<Rightarrow> bool option"
  Number_of_string :: "string \<Rightarrow> jsnum"
  Date_now :: string
  toISOString :: "int \<Rightarrow> string"

text \<open>The transaction context: the world state (key to stored JSON document, absent keys
  read as the empty buffer), the transaction id, \<^verbatim>\<open>getTxTimestamp().seconds.low\<close> and the
  event set by the transaction.\<close>

record ctx =
  state :: "(string \<times> json) list"
  txID :: string
  txTimestamp :: int
  event :: "(string \<times> json) option"

definition getState :: "ctx \<Rightarrow> string \<Rightarrow> json option" where
  "getState c key = map_of (state c) key"

definition putState :: "ctx \<Rightarrow> string \<Rightarrow> json \<Rightarrow> ctx" where
  "putState c key v = c\<lparr>state := AList.update key v (state c)\<rparr>"

definition setEvent :: "ctx \<Rightarrow> string \<Rightarrow> json \<Rightarrow> ctx" where
  "setEvent c name payload = c\<lparr>event := Some (name, payload)\<rparr>"

text \<open>The layout of the ledger's composite keys: a zero byte, the object type, a zero
  byte, and every attribute followed by a zero byte.\<close>

definition compositeKey :: "string \<Rightarrow> string list \<Rightarrow> string" where
  "compositeKey objectType attributes =
     CHR 0x00 # objectType @ [CHR 0x00] @ concat (map (\<lambda>a. a @ [CHR 0x00]) attributes)"

text \<open>Every \<^verbatim>\<open>throw new Error(...)\<close> of the contract, by its message, and the two throws
  that the contract's calls may raise: the TypeError of the runtime and the error of the
  ledger stub's key construction.\<close>

datatype error =
    CredentialArgsRequired      \<comment> \<open>userID and credentialHash are required\<close>
  | AlreadyExists string        \<comment> \<open>Credential for user ... already exists\<close>
  | UserIDRequired              \<comment> \<open>userID is required\<close>
  | NotFound string             \<comment> \<open>No credential found for user ...\<close>
  | PayloadRequired             \<comment> \<open>proofJSON and publicSignalsJSON are required\<close>
  | InvalidJSON                 \<comment> \<open>Invalid JSON for proof or public signals\<close>
  | KeyUnreadable               \<comment> \<open>Unable to read verification key at ...\<close>
  | VerifierThrew               \<comment> \<open>snarkjs verification failed: ...\<close>
  | MinimumAgeRequired          \<comment> \<open>minimumAge is required\<close>
  | MinimumAgeNotPositive       \<comment> \<open>minimumAge must be a positive integer\<close>
  | ProofFailed                 \<comment> \<open>Proof verification failed\<close>
  | SignalsTooShort             \<comment> \<open>Public signals must include at least [minimumAge, credentialHash, isOfAgeFlag]\<close>
  | MinAgeUnparsed              \<comment> \<open>Circuit minimum age signal could not be parsed\<close>
  | MinAgeMismatch jsnum jsnum  \<comment> \<open>Circuit minimum age (...) does not match requested minimum age (...)\<close>
  | NotOfAge                    \<comment> \<open>Proof indicates the holder does not meet the minimum age requirement\<close>
  | SignalsEmpty                \<comment> \<open>Public signals empty\<close>
  | NotAdult                    \<comment> \<open>Proof indicates the holder is NOT an adult (isAdult != 1)\<close>
  | PropertyOnPrimitive         \<comment> \<open>TypeError of a strict-mode property assignment on a primitive or null\<close>
  | KeyAttributeEmpty           \<comment> \<open>object type or attribute not a non-zero length string (thrown by the ledger stub)\<close>

text \<open>The error kinds of the specification's taxonomy, with kinds of their own for the
  throws of the runtime and of the ledger stub, and the kind of each throw.\<close>

datatype error_kind =
    ValidationError | AlreadyExistsError | NotFoundError | MalformedPayloadError
  | KeyUnavailableError | ProofInvalidError | SignalMismatchError
  | RevokedCredentialError | RootMismatchError | RuntimeTypeError | LedgerStubError


text \<open>\<^verbatim>\<open>ctx.stub.createCompositeKey\<close>: the stub throws when the object type or an attribute
  is the empty string, and builds the key otherwise. The contract does not catch the throw,
  so it ends the invocation.\<close>

definition createCompositeKey :: "string \<Rightarrow> string list \<Rightarrow> error + string" where
  "createCompositeKey objectType attributes =
     (if objectType = [] \<or> [] \<in> set attributes then Inl KeyAttributeEmpty
      else Inr (compositeKey objectType attributes))"

subsection \<open>Shared helpers\<close>

text \<open>The two copies of the contract, named by the signal convention of their VerifyAge.\<close>

datatype variant = ThreeSignal | SingleSignal

text \<open>verifyGroth16Payload. The second copy logs \<^verbatim>\<open>Object.keys(vKey)\<close> and
  \<^verbatim>\<open>Object.keys(proof)\<close> inside the \<^verbatim>\<open>try\<close> block before it calls the verifier;
  \<^verbatim>\<open>Object.keys(null)\<close> throws, and the \<^verbatim>\<open>catch\<close> rethrows it as a verification failure.\<close>

definition verifyGroth16Payload ::
  "variant \<Rightarrow> host \<Rightarrow> string \<Rightarrow> string \<Rightarrow> error + (bool \<times> json)" where
  "verifyGroth16Payload v h proofJSON publicSignalsJSON =
     (if proofJSON = [] \<or> publicSignalsJSON = [] then Inl PayloadRequired
      else (case JSON_parse h proofJSON of
              None \<Rightarrow> Inl InvalidJSON
            | Some prf \<Rightarrow>
                (case JSON_parse h publicSignalsJSON of
                   None \<Rightarrow> Inl InvalidJSON
                 | Some publicSignals \<Rightarrow>
                     (case verification_key h of
                        None \<Rightarrow> Inl KeyUnreadable
                      | Some vKey \<Rightarrow>
                          (if v = SingleSignal \<and> (vKey = JNull \<or> prf = JNull) then Inl VerifierThrew
                           else (case groth16_verify h vKey publicSignals prf of
                                   None \<Rightarrow> Inl VerifierThrew
                                 | Some valid \<Rightarrow> Inr (valid, publicSignals)))))))"

text \<open>The white space and line terminator characters that \<^verbatim>\<open>parseInt\<close> and \<^verbatim>\<open>BigInt\<close>
  trim, in UTF-8: U+0009 to U+000D, U+0020, U+00A0, U+1680, U+2000 to U+200A, U+2028,
  U+2029, U+202F, U+205F, U+3000 and U+FEFF.\<close>

definition ws_chars :: "string list" where
  "ws_chars =
     [[CHR 0x09], [CHR 0x0A], [CHR 0x0B], [CHR 0x0C], [CHR 0x0D], [CHR 0x20],
      [CHR 0xC2, CHR 0xA0],
      [CHR 0xE1, CHR 0x9A, CHR 0x80],
      [CHR 0xE2, CHR 0x80, CHR 0x80], [CHR 0xE2, CHR 0x80, CHR 0x81], [CHR 0xE2, CHR 0x80, CHR 0x82],
      [CHR 0xE2, CHR 0x80, CHR 0x83], [CHR 0xE2, CHR 0x80, CHR 0x84], [CHR 0xE2, CHR 0x80, CHR 0x85],
      [CHR 0xE2, CHR 0x80, CHR 0x86], [CHR 0xE2, CHR 0x80, CHR 0x87], [CHR 0xE2, CHR 0x80, CHR 0x88],
      [CHR 0xE2, CHR 0x80, CHR 0x89], [CHR 0xE2, CHR 0x80, CHR 0x8A],
      [CHR 0xE2, CHR 0x80, CHR 0xA8], [CHR 0xE2, CHR 0x80, CHR 0xA9], [CHR 0xE2, CHR 0x80, CHR 0xAF],
      [CHR 0xE2, CHR 0x81, CHR 0x9F],
      [CHR 0xE3, CHR 0x80, CHR 0x80],
      [CHR 0xEF, CHR 0xBB, CHR 0xBF]]"

text \<open>Dropping the white space at the start, and at the end, of a string.\<close>

function trimStart :: "string \<Rightarrow> string" where
  "trimStart s =
     (case find (\<lambda>w. take (length w) s = w) ws_chars of
        None \<Rightarrow> s
      | Some w \<Rightarrow> trimStart (drop (length w) s))"
  by pat_completeness auto
termination
proof (relation "measure length")
  fix s w :: string
  assume "find (\<lambda>w. take (length w) s = w) ws_chars = Some w"
  then have "w \<in> set ws_chars" and t: "take (length w) s = w"
    by (auto simp: find_Some_iff)
  then have "w \<noteq> []" by (auto simp: ws_chars_def)
  moreover have "length w \<le> length s"
    using arg_cong [OF t, of length] by simp
  ultimately show "(drop (length w) s, s) \<in> measure length"
    by (cases w) auto
qed simp

declare trimStart.simps [simp del]

function trimEnd :: "string \<Rightarrow> string" where
  "trimEnd s =
     (case find (\<lambda>w. length w \<le> length s \<and> drop (length s - length w) s = w) ws_chars of
        None \<Rightarrow> s
      | Some w \<Rightarrow> trimEnd (take (length s - length w) s))"
  by pat_completeness auto
termination
proof (relation "measure length")
  fix s w :: string
  assume "find (\<lambda>w. length w \<le> length s \<and> drop (length s - length w) s = w) ws_chars = Some w"
  then have "w \<in> set ws_chars" and t: "length w \<le> length s"
    by (auto simp: find_Some_iff)
  then have "w \<noteq> []" by (auto simp: ws_chars_def)
  then show "(take (length s - length w) s, s) \<in> measure length"
    using t by (cases w) auto
qed simp

declare trimEnd.simps [simp del]

definition trim :: "string \<Rightarrow> string" where
  "trim s = trimEnd (trimStart s)"

text \<open>\<^verbatim>\<open>parseInt(s, 10)\<close>: leading white space, an optional sign, the longest run of
  decimal digits, and the Number value of the signed integer they denote.\<close>

definition parseInt10 :: "string \<Rightarrow> jsnum" where
  "parseInt10 s =
     (let t = trimStart s;
          neg = (t \<noteq> [] \<and> hd t = CHR ''-'');
          u = (if t \<noteq> [] \<and> (hd t = CHR ''-'' \<or> hd t = CHR ''+'') then tl t else t);
          ds = takeWhile is_digit u
      in if ds = [] then NaN
         else to_binary64 (if neg then - int (dec_val ds) else int (dec_val ds)))"

definition hex_val_char :: "char \<Rightarrow> nat option" where
  "hex_val_char c =
     (let n = (of_char c :: nat)
      in if 48 \<le> n \<and> n \<le> 57 then Some (n - 48)
         else if 97 \<le> n \<and> n \<le> 102 then Some (n - 87)
         else if 65 \<le> n \<and> n \<le> 70 then Some (n - 55)
         else None)"

text \<open>The digits of a literal in base \<open>b\<close>; \<open>None\<close> when a character is not a digit of the
  base or there is no digit.\<close>

definition radix_val :: "nat \<Rightarrow> string \<Rightarrow> nat option" where
  "radix_val b s =
     (if s = [] \<or> list_ex (\<lambda>c. case hex_val_char c of None \<Rightarrow> True | Some d \<Rightarrow> b \<le> d) s
      then None
      else Some (foldl (\<lambda>a c. a * b + the (hex_val_char c)) 0 s))"

text \<open>\<^verbatim>\<open>BigInt(s)\<close> on a string: \<open>None\<close> is its SyntaxError.\<close>

definition BigInt_of_string :: "string \<Rightarrow> int option" where
  "BigInt_of_string s =
     (let t = trim s
      in if t = [] then Some 0
         else if take 2 t \<in> {''0x'', ''0X''} then map_option int (radix_val 16 (drop 2 t))
         else if take 2 t \<in> {''0o'', ''0O''} then map_option int (radix_val 8 (drop 2 t))
         else if take 2 t \<in> {''0b'', ''0B''} then map_option int (radix_val 2 (drop 2 t))
         else if hd t = CHR ''-'' then map_option (\<lambda>n. - int n) (radix_val 10 (tl t))
         else if hd t = CHR ''+'' then map_option int (radix_val 10 (tl t))
         else map_option int (radix_val 10 t))"

text \<open>toNumber on a parsed public signal; \<open>JNull\<close> also stands for \<^verbatim>\<open>undefined\<close>.\<close>

fun toNumber :: "host \<Rightarrow> json \<Rightarrow> jsnum" where
  "toNumber h JNull = NaN"
| "toNumber h (JNum x) = Num x"
| "toNumber h (JStr s) =
     (case BigInt_of_string s of
        Some n \<Rightarrow> to_binary64 n
      | None \<Rightarrow> Number_of_string h s)"
| "toNumber h v = NaN"

definition toLowerCase :: "string \<Rightarrow> string" where
  "toLowerCase s =
     map (\<lambda>c. let n = (of_char c :: nat) in if 65 \<le> n \<and> n \<le> 90 then char_of (n + 32) else c) s"

fun toBooleanSignal :: "json \<Rightarrow> bool" where
  "toBooleanSignal (JBool b) = b"
| "toBooleanSignal (JNum x) = (x = 1)"
| "toBooleanSignal (JStr s) = (s = ''1'' \<or> toLowerCase s = ''true'')"
| "toBooleanSignal v = False"

text \<open>The timestamp expression of each copy: \<^verbatim>\<open>new Date().toISOString()\<close> in
  \<^verbatim>\<open>identity-cc/lib/identity.js\<close>, and
  \<^verbatim>\<open>new Date(ctx.stub.getTxTimestamp().seconds.low * 1000).toISOString()\<close> in the second copy.\<close>

fun clock :: "variant \<Rightarrow> host \<Rightarrow> ctx \<Rightarrow> string" where
  "clock ThreeSignal h c = Date_now h"
| "clock SingleSignal h c = toISOString h (txTimestamp c * 1000)"

text \<open>The key of a holder's credential, and the contract's helper \<^verbatim>\<open>_credentialKey\<close> that
  asks the stub for it.\<close>

definition credentialKey :: "string \<Rightarrow> string" where
  "credentialKey userID = compositeKey ''credential'' [userID]"

definition stub_credentialKey :: "string \<Rightarrow> error + string" where
  "stub_credentialKey userID = createCompositeKey ''credential'' [userID]"

subsection \<open>Contract operations\<close>

text \<open>An operation returns what it returns or throws, together with the context as the
  operation left it: a write made before a throw would show in the second component.\<close>

type_synonym outcome = "(error + json) \<times> ctx"

definition IssueCredential ::
  "variant \<Rightarrow> host \<Rightarrow> ctx \<Rightarrow> string \<Rightarrow> string \<Rightarrow> string \<Rightarrow> string \<Rightarrow> outcome" where
  "IssueCredential v h c userID credentialHash issuer timestamp =
     (if userID = [] \<or> credentialHash = [] then (Inl CredentialArgsRequired, c)
      else (case stub_credentialKey userID of
              Inl e \<Rightarrow> (Inl e, c)
            | Inr key \<Rightarrow>
                (case getState c key of
                   Some existing \<Rightarrow> (Inl (AlreadyExists userID), c)
                 | None \<Rightarrow>
                     (let data = JObj
                            [(''credentialHash'', JStr credentialHash),
                             (''issuer'', JStr (if issuer \<noteq> [] then issuer else ''unknown'')),
                             (''timestamp'', JStr (if timestamp \<noteq> [] then timestamp else clock v h c)),
                             (''valid'', JBool True)];
                          c1 = putState c key data;
                          c2 = setEvent c1 ''IssueCredential''
                                 (JObj [(''userID'', JStr userID), (''credentialHash'', JStr credentialHash)])
                      in (Inr data, c2)))))"

definition GetCredential :: "ctx \<Rightarrow> string \<Rightarrow> outcome" where
  "GetCredential c userID =
     (if userID = [] then (Inl UserIDRequired, c)
      else (case stub_credentialKey userID of
              Inl e \<Rightarrow> (Inl e, c)
            | Inr key \<Rightarrow>
                (case getState c key of
                   None \<Rightarrow> (Inl (NotFound userID), c)
                 | Some b \<Rightarrow> (Inr b, c))))"

text \<open>RevokeCredential assigns properties of the parsed document. On an object the
  assignments update or append the property; on an array they are lost when the document is
  serialised again; on a primitive or null the assignment throws in strict mode.\<close>

definition RevokeCredential ::
  "variant \<Rightarrow> host \<Rightarrow> ctx \<Rightarrow> string \<Rightarrow> string \<Rightarrow> outcome" where
  "RevokeCredential v h c userID reason =
     (if userID = [] then (Inl UserIDRequired, c)
      else (case stub_credentialKey userID of
              Inl e \<Rightarrow> (Inl e, c)
            | Inr key \<Rightarrow>
                (case getState c key of
                   None \<Rightarrow> (Inl (NotFound userID), c)
                 | Some (JObj props) \<Rightarrow>
                     (let p1 = AList.update ''valid'' (JBool False) props;
                          p2 = AList.update ''revokedAt'' (JStr (clock v h c)) p1;
                          p3 = (if reason \<noteq> [] then AList.update ''revocationReason'' (JStr reason) p2 else p2);
                          c1 = putState c key (JObj p3);
                          c2 = setEvent c1 ''RevokeCredential'' (JObj [(''userID'', JStr userID)])
                      in (Inr (JObj p3), c2))
                 | Some (JArr xs) \<Rightarrow>
                     (let c1 = putState c key (JArr xs);
                          c2 = setEvent c1 ''RevokeCredential'' (JObj [(''userID'', JStr userID)])
                      in (Inr (JArr xs), c2))
                 | Some other \<Rightarrow> (Inl PropertyOnPrimitive, c))))"

definition VerifyProof ::
  "variant \<Rightarrow> host \<Rightarrow> ctx \<Rightarrow> string \<Rightarrow> string \<Rightarrow> string \<Rightarrow> outcome" where
  "VerifyProof v h c userID proofJSON publicSignalsJSON =
     (case verifyGroth16Payload v h proofJSON publicSignalsJSON of
        Inl e \<Rightarrow> (Inl e, c)
      | Inr (valid, publicSignals) \<Rightarrow>
          (case createCompositeKey ''verification'' [userID, txID c] of
             Inl e \<Rightarrow> (Inl e, c)
           | Inr verificationKey \<Rightarrow>
               (let record = JObj
                      [(''userID'', JStr userID),
                       (''txID'', JStr (txID c)),
                       (''timestamp'', JStr (clock v h c)),
                       (''valid'', JBool valid),
                       (''publicSignals'', publicSignals)];
                    c1 = putState c verificationKey record;
                    c2 = setEvent c1 ''VerifyProof''
                           (JObj [(''userID'', JStr userID), (''txID'', JStr (txID c)), (''valid'', JBool valid)])
                in (Inr (JObj [(''valid'', JBool valid)]), c2))))"

text \<open>VerifyAge of \<^verbatim>\<open>identity-cc/lib/identity.js\<close> (three signals, wall clock).\<close>

definition VerifyAge_three :: "host \<Rightarrow> ctx \<Rightarrow> string \<Rightarrow> string \<Rightarrow> string \<Rightarrow> string \<Rightarrow> outcome" where
  "VerifyAge_three h c userID minimumAge proofJSON publicSignalsJSON =
     (if userID = [] then (Inl UserIDRequired, c)
      else if minimumAge = [] then (Inl MinimumAgeRequired, c)
      else (let minAgeInt = parseInt10 minimumAge
            in if minAgeInt = NaN \<or> le_zero minAgeInt then (Inl MinimumAgeNotPositive, c)
               else (case verifyGroth16Payload ThreeSignal h proofJSON publicSignalsJSON of
                       Inl e \<Rightarrow> (Inl e, c)
                     | Inr (valid, publicSignals) \<Rightarrow>
                        (if \<not> valid then (Inl ProofFailed, c)
                         else (case publicSignals of
                                 JArr sigs \<Rightarrow>
                                  (if length sigs < 3 then (Inl SignalsTooShort, c)
                                   else (let circuitMinAge = toNumber h (sigs ! 0)
                                         in if circuitMinAge = NaN then (Inl MinAgeUnparsed, c)
                                            else if circuitMinAge \<noteq> minAgeInt
                                            then (Inl (MinAgeMismatch circuitMinAge minAgeInt), c)
                                            else if \<not> toBooleanSignal (sigs ! 2) then (Inl NotOfAge, c)
                                            else (case createCompositeKey ''ageVerification'' [userID, txID c] of
                                                    Inl e \<Rightarrow> (Inl e, c)
                                                  | Inr verificationKey \<Rightarrow>
                                                     (let record = JObj
                                                            [(''userID'', JStr userID),
                                                             (''txID'', JStr (txID c)),
                                                             (''timestamp'', JStr (clock ThreeSignal h c)),
                                                             (''minimumAge'', stringify_number minAgeInt),
                                                             (''credentialHash'', sigs ! 1),
                                                             (''isOfAge'', JBool True),
                                                             (''publicSignals'', publicSignals)];
                                                          c1 = putState c verificationKey record;
                                                          c2 = setEvent c1 ''VerifyAge''
                                                                 (JObj [(''userID'', JStr userID),
                                                                        (''minimumAge'', stringify_number minAgeInt)])
                                                      in (Inr (JObj [(''valid'', JBool True),
                                                                     (''minimumAge'', stringify_number minAgeInt)]),
                                                          c2)))))
                               | other \<Rightarrow> (Inl SignalsTooShort, c))))))"

text \<open>VerifyAge of the second copy of the contract (one signal, transaction timestamp).\<close>

definition VerifyAge_single :: "host \<Rightarrow> ctx \<Rightarrow> string \<Rightarrow> string \<Rightarrow> string \<Rightarrow> string \<Rightarrow> outcome" where
  "VerifyAge_single h c userID minimumAge proofJSON publicSignalsJSON =
     (if userID = [] then (Inl UserIDRequired, c)
      else (case verifyGroth16Payload SingleSignal h proofJSON publicSignalsJSON of
              Inl e \<Rightarrow> (Inl e, c)
            | Inr (valid, publicSignals) \<Rightarrow>
               (if \<not> valid then (Inl ProofFailed, c)
                else (case publicSignals of
                        JArr sigs \<Rightarrow>
                         (if sigs = [] then (Inl SignalsEmpty, c)
                          else if sigs ! 0 \<noteq> JStr ''1'' then (Inl NotAdult, c)
                          else (case createCompositeKey ''ageVerification'' [userID, txID c] of
                                  Inl e \<Rightarrow> (Inl e, c)
                                | Inr verificationKey \<Rightarrow>
                                   (let record = JObj
                                          [(''userID'', JStr userID),
                                           (''txID'', JStr (txID c)),
                                           (''timestamp'', JStr (clock SingleSignal h c)),
                                           (''minimumAge'', (if minimumAge \<noteq> [] then JStr minimumAge else JNum 18)),
                                           (''isOfAge'', JBool True),
                                           (''publicSignals'', publicSignals)];
                                        c1 = putState c verificationKey record;
                                        c2 = setEvent c1 ''VerifyAge''
                                               (JObj [(''userID'', JStr userID), (''isOfAge'', JBool True)])
                                    in (Inr (JObj [(''valid'', JBool True), (''isOfAge'', JBool True)]), c2))))
                      | other \<Rightarrow> (Inl SignalsEmpty, c)))))"

text \<open>QueryVerifications reads every document under the partial composite key of the
  \<^verbatim>\<open>verification\<close> object type, in key order.\<close>

definition QueryVerifications :: "ctx \<Rightarrow> outcome" where
  "QueryVerifications c =
     (let p = compositeKey ''verification'' [];
          results = map snd (sort_key fst (filter (\<lambda>(k, v). take (length p) k = p) (state c)))
      in (Inr (JArr results), c))"

subsection \<open>Transactions\<close>

text \<open>A call of one of the six operations.\<close>

datatype call =
    Issue string string string string
  | Get string
  | Revoke string string
  | Verify string string string
  | Age string string string string
  | Query

fun invoke :: "variant \<Rightarrow> host \<Rightarrow> ctx \<Rightarrow> call \<Rightarrow> outcome" where
  "invoke v h c (Issue userID credentialHash issuer timestamp) =
     IssueCredential v h c userID credentialHash issuer timestamp"
| "invoke v h c (Get userID) = GetCredential c userID"
| "invoke v h c (Revoke userID reason) = RevokeCredential v h c userID reason"
| "invoke v h c (Verify userID proofJSON publicSignalsJSON) =
     VerifyProof v h c userID proofJSON publicSignalsJSON"
| "invoke v h c (Age userID minimumAge proofJSON publicSignalsJSON) =
     (case v of
        ThreeSignal \<Rightarrow> VerifyAge_three h c userID minimumAge proofJSON publicSignalsJSON
      | SingleSignal \<Rightarrow> VerifyAge_single h c userID minimumAge proofJSON publicSignalsJSON)"
| "invoke v h c Query = QueryVerifications c"

text \<open>A transaction: the node's host, the transaction id and timestamp, and the call. The
  ledger commits the writes of a transaction that returns and discards those of one that
  throws.\<close>

record tx =
  tx_host :: host
  tx_id :: string
  tx_seconds :: int
  tx_call :: call

definition commit :: "variant \<Rightarrow> (string \<times> json) list \<Rightarrow> tx \<Rightarrow> (string \<times> json) list" where
  "commit v st t =
     (case invoke v (tx_host t) \<lparr>state = st, txID = tx_id t, txTimestamp = tx_seconds t, event = None\<rparr>
             (tx_call t) of
        (Inl e, c') \<Rightarrow> st
      | (Inr r, c') \<Rightarrow> state c')"

definition run :: "variant \<Rightarrow> (string \<times> json) list \<Rightarrow> tx list \<Rightarrow> (string \<times> json) list" where
  "run v st txs = foldl (commit v) st txs"

text \<open>Reading a stored credential: whether it is revoked, and its hash.\<close>

definition revoked :: "(string \<times> json) list \<Rightarrow> string \<Rightarrow> bool" where
  "revoked st userID =
     (case map_of st (credentialKey userID) of
        Some (JObj props) \<Rightarrow> map_of props ''valid'' = Some (JBool False)
      | other \<Rightarrow> False)"

definition stored_hash :: "(string \<times> json) list \<Rightarrow> string \<Rightarrow> json option" where
  "stored_hash st userID =
     (case map_of st (credentialKey userID) of
        Some (JObj props) \<Rightarrow> map_of props ''credentialHash''
      | other \<Rightarrow> None)"

section \<open>Auxiliary definitions for the proofs\<close>

subsection \<open>The loops of the Merkle utility as structural recursions\<close>

text \<open>The array \<^verbatim>\<open>layers\<close> that the loop of buildMerkleTree builds from a first layer.\<close>

function layers_from :: "(fe \<Rightarrow> fe \<Rightarrow> fe) \<Rightarrow> fe list \<Rightarrow> fe list list" where
  "layers_from H xs =
     (if length xs > 1 then xs # layers_from H (nextLayer H xs) else [xs])"
  by pat_completeness auto
termination
proof (relation "measure (\<lambda>(H, xs). length xs)")
  fix H :: "fe \<Rightarrow> fe \<Rightarrow> fe" and xs :: "fe list"
  assume "1 < length xs"
  moreover have "length (nextLayer H ys) = (length ys + 1) div 2" for ys
    by (induction H ys rule: nextLayer.induct) auto
  ultimately show "((H, nextLayer H xs), H, xs) \<in> measure (\<lambda>(H, xs). length xs)"
    by simp
qed simp

declare layers_from.simps [simp del]

text \<open>The sibling and the position bit that the loop of generateMerkleProof pushes at each
  level below the top one.\<close>

definition sibling_of :: "fe list \<Rightarrow> nat \<Rightarrow> fe option" where
  "sibling_of l i =
     (let siblingIndex = (if i mod 2 = 0 then i + 1 else i - 1)
      in if siblingIndex < length l then elem l siblingIndex else elem l i)"

fun path_of :: "fe list list \<Rightarrow> nat \<Rightarrow> (fe option \<times> nat) list" where
  "path_of (l # l' # ls) i =
     (sibling_of l i, (if i mod 2 = 0 then 0 else 1)) # path_of (l' # ls) (i div 2)"
| "path_of ls i = []"

text \<open>The running hash of verifyMerkleProof along a path.\<close>

fun replay :: "(fe \<Rightarrow> fe \<Rightarrow> fe) \<Rightarrow> fe \<Rightarrow> (fe option \<times> nat) list \<Rightarrow> merkle_error + fe" where
  "replay H c [] = Inr c"
| "replay H c ((None, b) # ps) = Inl UndefinedToBigInt"
| "replay H c ((Some s, b) # ps) = replay H (if b = 0 then H c s else H s c) ps"


subsection \<open>A sample host and sample transactions\<close>

text \<open>The payloads of the repository's test scripts: a Groth16 proof object, and public
  signals in both conventions. The sample host parses exactly these texts, holds a
  verification key, its verifier returns true, and its \<open>toISOString\<close> is given at the one
  instant the sample transactions carry (1732406400 seconds, 2024-11-24T00:00:00Z).\<close>

definition sample_proof :: string where
  \<open>sample_proof = ''{"pi_a":["1","1","1"],"pi_b":[["1","1"],["1","1"],["1","0"]],"pi_c":["1","1","1"],"protocol":"groth16","curve":"bn128"}''\<close>

definition sample_proof_json :: json where
  "sample_proof_json = JObj
     [(''pi_a'', JArr [JStr ''1'', JStr ''1'', JStr ''1'']),
      (''pi_b'', JArr [JArr [JStr ''1'', JStr ''1''], JArr [JStr ''1'', JStr ''1''], JArr [JStr ''1'', JStr ''0'']]),
      (''pi_c'', JArr [JStr ''1'', JStr ''1'', JStr ''1'']),
      (''protocol'', JStr ''groth16''),
      (''curve'', JStr ''bn128'')]"

definition sample_parse :: "string \<Rightarrow> json option" where
  \<open>sample_parse = map_of
     [(sample_proof, sample_proof_json),
      (''["1"]'', JArr [JStr ''1'']),
      (''["0"]'', JArr [JStr ''0'']),
      (''["1","222"]'', JArr [JStr ''1'', JStr ''222'']),
      (''["18","111","1"]'', JArr [JStr ''18'', JStr ''111'', JStr ''1'']),
      (''["18","222","1"]'', JArr [JStr ''18'', JStr ''222'', JStr ''1'']),
      (''["18","111","0"]'', JArr [JStr ''18'', JStr ''111'', JStr ''0''])]\<close>

definition sample_host :: host where
  "sample_host =
     \<lparr>JSON_parse = sample_parse,
      verification_key = Some (JObj [(''protocol'', JStr ''groth16'')]),
      groth16_verify = (\<lambda>vKey publicSignals prf. Some True),
      Number_of_string = (\<lambda>s. NaN),
      Date_now = ''2024-11-24T10:15:30.000Z'',
      toISOString = (\<lambda>ms. if ms = 1732406400000 then ''2024-11-24T00:00:00.000Z'' else [])\<rparr>"

text \<open>The same host with a verifier that returns false.\<close>

definition rejecting_host :: host where
  "rejecting_host = sample_host\<lparr>groth16_verify := (\<lambda>vKey publicSignals prf. Some False)\<rparr>"

text \<open>The same host on a node whose wall clock reads one second later.\<close>

definition later_host :: host where
  "later_host = sample_host\<lparr>Date_now := ''2024-11-24T10:15:31.000Z''\<rparr>"

definition tx_issue :: tx where
  "tx_issue = \<lparr>tx_host = sample_host, tx_id = ''tx1'', tx_seconds = 1732406400,
               tx_call = Issue ''u1'' ''111'' ''TrustedIssuer'' ''2024-11-24T00:00:00Z''\<rparr>"

definition tx_revoke :: tx where
  "tx_revoke = \<lparr>tx_host = sample_host, tx_id = ''tx2'', tx_seconds = 1732406400,
                tx_call = Revoke ''u1'' ''Security breach''\<rparr>"

text \<open>The ledger after the issuance, and after the issuance and the revocation.\<close>

definition st_issued :: "(string \<times> json) list" where
  "st_issued =
     [(credentialKey ''u1'',
       JObj [(''credentialHash'', JStr ''111''),
             (''issuer'', JStr ''TrustedIssuer''),
             (''timestamp'', JStr ''2024-11-24T00:00:00Z''),
             (''valid'', JBool True)])]"

definition st_revoked :: "(string \<times> json) list" where
  "st_revoked =
     [(credentialKey ''u1'',
       JObj [(''credentialHash'', JStr ''111''),
             (''issuer'', JStr ''TrustedIssuer''),
             (''timestamp'', JStr ''2024-11-24T00:00:00Z''),
             (''valid'', JBool False),
             (''revokedAt'', JStr ''2024-11-24T00:00:00.000Z''),
             (''revocationReason'', JStr ''Security breach'')])]"

definition ctx_of :: "(string \<times> json) list \<Rightarrow> string \<Rightarrow> ctx" where
  "ctx_of st i = \<lparr>state = st, txID = i, txTimestamp = 1732406400, event = None\<rparr>"


section \<open>The Merkle utility: proofs\<close>

lemma length_nextLayer: "length (nextLayer H xs) = (length xs + 1) div 2"
  by (induction H xs rule: nextLayer.induct) auto

lemma layers_from_not_Nil: "layers_from H xs \<noteq> []"
  by (subst layers_from.simps) simp

lemma hd_layers_from: "hd (layers_from H xs) = xs"
  by (subst layers_from.simps) simp

lemma build_loop_eq:
  "build_loop H cur ls = (last (layers_from H cur), ls @ tl (layers_from H cur))"
proof (induction H cur ls rule: build_loop.induct)
  case (1 H cur ls)
  show ?case
  proof (cases "length cur > 1")
    case True
    have step: "layers_from H cur = cur # layers_from H (nextLayer H cur)"
      using True by (subst layers_from.simps) simp
    have hdtl: "layers_from H (nextLayer H cur) = nextLayer H cur # tl (layers_from H (nextLayer H cur))"
      using layers_from_not_Nil [of H "nextLayer H cur"] hd_layers_from [of H "nextLayer H cur"]
      by (cases "layers_from H (nextLayer H cur)") auto
    have "build_loop H cur ls = build_loop H (nextLayer H cur) (ls @ [nextLayer H cur])"
      using True by (subst build_loop.simps) (simp add: Let_def)
    also have "\<dots> = (last (layers_from H (nextLayer H cur)),
                      (ls @ [nextLayer H cur]) @ tl (layers_from H (nextLayer H cur)))"
      using "1.IH" [OF True refl] .
    also have "\<dots> = (last (layers_from H cur), ls @ tl (layers_from H cur))"
      using hdtl step layers_from_not_Nil [of H "nextLayer H cur"] by simp
    finally show ?thesis .
  next
    case False
    then show ?thesis
      by (subst build_loop.simps, subst (1 2) layers_from.simps) simp
  qed
qed

lemma proof_loop_eq:
  "proof_loop ls level i pels pidx =
     (pels @ map fst (path_of (drop level ls) i), pidx @ map snd (path_of (drop level ls) i))"
proof (induction ls level i pels pidx rule: proof_loop.induct)
  case (1 ls level i pels pidx)
  show ?case
  proof (cases "level + 1 < length ls")
    case True
    then have d: "drop level ls = ls ! level # drop (Suc level) ls"
      by (simp add: Cons_nth_drop_Suc)
    have d': "drop (Suc level) ls = ls ! Suc level # drop (Suc (Suc level)) ls"
      using True by (simp add: Cons_nth_drop_Suc)
    have "path_of (drop level ls) i
            = path_of (ls ! level # ls ! Suc level # drop (Suc (Suc level)) ls) i"
      by (subst d, subst d') simp
    also have "\<dots> = (sibling_of (ls ! level) i, if i mod 2 = 0 then 0 else 1)
                        # path_of (ls ! Suc level # drop (Suc (Suc level)) ls) (i div 2)"
      by simp
    also have "\<dots> = (sibling_of (ls ! level) i, if i mod 2 = 0 then 0 else 1)
                        # path_of (drop (Suc level) ls) (i div 2)"
      using d' by simp
    finally have p: "path_of (drop level ls) i
            = (sibling_of (ls ! level) i, if i mod 2 = 0 then 0 else 1)
              # path_of (drop (Suc level) ls) (i div 2)" .
    show ?thesis
      using True "1.IH" [OF True refl refl refl]
      by (subst proof_loop.simps) (simp add: Let_def p sibling_of_def)
  next
    case False
    then have "length (drop level ls) \<le> 1" by simp
    then have "path_of (drop level ls) i = []"
      by (cases "drop level ls"; cases "tl (drop level ls)") auto
    with False show ?thesis by (subst proof_loop.simps) simp
  qed
qed

lemma verify_loop_eq:
  "length pels = length pidx \<Longrightarrow> verify_loop H pels pidx i c = replay H c (drop i (zip pels pidx))"
proof (induction H pels pidx i c rule: verify_loop.induct)
  case (1 H pels pidx i c)
  show ?case
  proof (cases "i < length pels")
    case True
    then have d: "drop i (zip pels pidx) = (pels ! i, pidx ! i) # drop (i + 1) (zip pels pidx)"
      using "1.prems" by (simp add: Cons_nth_drop_Suc [symmetric])
    show ?thesis
    proof (cases "pels ! i")
      case None
      then show ?thesis using True d by (subst verify_loop.simps) simp
    next
      case (Some s)
      then show ?thesis using True d "1.IH" "1.prems"
        by (subst verify_loop.simps) (auto simp: elem_def)
    qed
  next
    case False
    then show ?thesis using "1.prems" by (subst verify_loop.simps) simp
  qed
qed

lemma nextLayer_nth:
  "i < length xs \<Longrightarrow>
   nextLayer H xs ! (i div 2) =
     (if i mod 2 = 0
      then (if i + 1 < length xs then H (xs ! i) (xs ! (i + 1)) else H (xs ! i) (xs ! i))
      else H (xs ! (i - 1)) (xs ! i))"
proof (induction H xs arbitrary: i rule: nextLayer.induct)
  case (1 H left right rest)
  show ?case
  proof (cases i)
    case 0
    then show ?thesis by simp
  next
    case (Suc j)
    show ?thesis
    proof (cases j)
      case 0
      with Suc show ?thesis by simp
    next
      case (Suc k)
      with \<open>i = Suc j\<close> have i: "i = Suc (Suc k)" by simp
      then have k: "k < length rest" using "1.prems" by simp
      have "Suc (Suc k) div 2 = Suc (k div 2)" by simp
      moreover have "Suc (Suc k) mod 2 = k mod 2" by simp
      ultimately show ?thesis using "1.IH" [OF k] i
        by auto
    qed
  qed
qed auto

lemma replay_path:
  "i < length xs \<Longrightarrow>
   replay H (xs ! i) (path_of (layers_from H xs) i) = Inr (hd (last (layers_from H xs)))"
proof (induction H xs arbitrary: i rule: layers_from.induct)
  case (1 H xs)
  show ?case
  proof (cases "length xs > 1")
    case True
    let ?n = "nextLayer H xs"
    have step: "layers_from H xs = xs # layers_from H ?n"
      using True by (subst layers_from.simps) simp
    obtain rest where r: "layers_from H ?n = ?n # rest"
      using layers_from_not_Nil [of H ?n] hd_layers_from [of H ?n]
      by (cases "layers_from H ?n") auto
    have i2: "i div 2 < length ?n" using "1.prems" by (simp add: length_nextLayer) 
    have IH: "replay H (?n ! (i div 2)) (path_of (layers_from H ?n) (i div 2))
               = Inr (hd (last (layers_from H ?n)))"
      using "1.IH" [OF True i2] .
    have lastq: "last (layers_from H xs) = last (layers_from H ?n)"
      using step r by simp
    have "replay H (xs ! i) (path_of (xs # ?n # rest) i)
            = replay H (?n ! (i div 2)) (path_of (?n # rest) (i div 2))"
      using "1.prems" nextLayer_nth [OF "1.prems", of H]
      by (auto simp: elem_def sibling_of_def Let_def)
    then show ?thesis using IH step r lastq by simp
  next
    case False
    then have "layers_from H xs = [xs]" by (subst layers_from.simps) simp
    moreover have "i = 0" using False "1.prems" by simp
    ultimately show ?thesis using "1.prems" by (cases xs) auto
  qed
qed

lemma last_layers_from_nonempty: "xs \<noteq> [] \<Longrightarrow> last (layers_from H xs) \<noteq> []"
proof (induction H xs rule: layers_from.induct)
  case (1 H xs)
  show ?case
  proof (cases "length xs > 1")
    case True
    then have "nextLayer H xs \<noteq> []" using length_nextLayer [of H xs] by auto
    then show ?thesis using True "1.IH" layers_from_not_Nil [of H "nextLayer H xs"]
      by (subst layers_from.simps) simp
  next
    case False
    then show ?thesis using "1.prems" by (subst layers_from.simps) simp
  qed
qed

text \<open>
  Claim C1. For every non-empty list of leaves and every index \<open>i\<close> below the number of
  leaves, building the tree, generating the proof of leaf \<open>i\<close> and verifying it for
  \<open>leaves[i]\<close> against the root of the tree returns true; none of the three steps throws.
\<close>

theorem merkle_roundtrip:
  assumes "leaves \<noteq> []" and "i < length leaves"
  shows "\<exists>t p r. buildMerkleTree H leaves = Inr t
           \<and> generateMerkleProof t (int i) = Inr p
           \<and> getRootHash t = Inr r
           \<and> verifyMerkleProof H (leaves ! i) p r = Inr True"
proof -
  let ?L = "layers_from H leaves"
  let ?t = "\<lparr>layers = ?L, root = elem (last ?L) 0\<rparr>"
  let ?path = "path_of ?L i"
  let ?p = "\<lparr>pathElements = map fst ?path, pathIndices = map snd ?path\<rparr>"
  have L: "?L = leaves # tl ?L"
    using layers_from_not_Nil [of H leaves] hd_layers_from [of H leaves]
    by (cases ?L) auto
  have b: "buildMerkleTree H leaves = Inr ?t"
    using assms(1) L by (simp add: buildMerkleTree_def build_loop_eq)
  have g: "generateMerkleProof ?t (int i) = Inr ?p"
    using assms(2) L layers_from_not_Nil [of H leaves]
    by (simp add: generateMerkleProof_def proof_loop_eq nth_Cons' hd_conv_nth [symmetric] hd_layers_from)
  have ne: "last ?L \<noteq> []" using assms(1) by (rule last_layers_from_nonempty)
  then have r: "getRootHash ?t = Inr (hd (last ?L))"
    by (simp add: getRootHash_def elem_def hd_conv_nth)
  have z: "zip (map fst ?path) (map snd ?path) = ?path"
    by (simp add: zip_map_fst_snd)
  have v: "verifyMerkleProof H (leaves ! i) ?p (hd (last ?L)) = Inr True"
    using replay_path [OF assms(2), of H]
    by (simp add: verifyMerkleProof_def verify_loop_eq z)
  from b g r v show ?thesis by blast
qed

theorem merkle_roundtrip_witness:
  "[1, 2, 3 :: nat] \<noteq> [] \<and> (2 :: nat) < length [1, 2, 3 :: nat] \<and>
   (\<exists>t p r. buildMerkleTree (\<lambda>a b. a + 2 * b) [1, 2, 3] = Inr t
      \<and> generateMerkleProof t (int 2) = Inr p
      \<and> getRootHash t = Inr r
      \<and> verifyMerkleProof (\<lambda>a b. a + 2 * b) ([1, 2, 3] ! 2) p r = Inr True)"
  using merkle_roundtrip [of "[1, 2, 3]" 2 "\<lambda>a b. a + 2 * b"] by simp

lemma nextLayer_Nil_iff: "nextLayer H xs = [] \<longleftrightarrow> xs = []"
  by (cases "(H, xs)" rule: nextLayer.cases) auto

lemma last_nextLayer_odd:
  "odd (length xs) \<Longrightarrow> last (nextLayer H xs) = H (last xs) (last xs)"
proof (induction H xs rule: nextLayer.induct)
  case (1 H left right rest)
  then have "odd (length rest)" by simp
  then have "rest \<noteq> []" by auto
  with 1 show ?case by (simp add: nextLayer_Nil_iff)
qed auto

lemma length_path_of: "length (path_of ls i) = length ls - 1"
  by (induction ls i rule: path_of.induct) auto

lemma path_of_nth:
  "k + 1 < length ls \<Longrightarrow>
   path_of ls i ! k =
     (sibling_of (ls ! k) (i div 2 ^ k), (if (i div 2 ^ k) mod 2 = 0 then 0 else 1))"
proof (induction ls i arbitrary: k rule: path_of.induct)
  case (1 l l' ls i)
  show ?case
  proof (cases k)
    case 0
    then show ?thesis by simp
  next
    case (Suc j)
    then have j: "j + 1 < length (l' # ls)" using "1.prems" by simp
    show ?thesis
      using "1.IH" [OF j] Suc by (simp add: div_mult2_eq)
  qed
qed auto

lemma layers_from_step:
  "k + 1 < length (layers_from H xs) \<Longrightarrow>
   layers_from H xs ! (k + 1) = nextLayer H (layers_from H xs ! k)"
proof (induction H xs arbitrary: k rule: layers_from.induct)
  case (1 H xs)
  show ?case
  proof (cases "length xs > 1")
    case True
    let ?n = "nextLayer H xs"
    have step: "layers_from H xs = xs # layers_from H ?n"
      using True by (subst layers_from.simps) simp
    show ?thesis
    proof (cases k)
      case 0
      then show ?thesis using step hd_layers_from [of H ?n] layers_from_not_Nil [of H ?n]
        by (simp add: hd_conv_nth)
    next
      case (Suc j)
      then have "j + 1 < length (layers_from H ?n)" using "1.prems" step by simp
      from "1.IH" [OF True this] show ?thesis using step Suc by simp
    qed
  next
    case False
    then have "layers_from H xs = [xs]" by (subst layers_from.simps) simp
    with "1.prems" show ?thesis by simp
  qed
qed

lemma generate_any_tree:
  assumes "layers t \<noteq> []" and "i < length (layers t ! 0)"
  shows "generateMerkleProof t (int i)
           = Inr \<lparr>pathElements = map fst (path_of (layers t) i),
                  pathIndices = map snd (path_of (layers t) i)\<rparr>"
  using assms by (simp add: generateMerkleProof_def proof_loop_eq)

text \<open>
  Claim C4. A layer of odd length hashes its last, unpaired element with a duplicate of
  itself, and every layer of a built tree above the leaves is computed so from the layer
  below it. In any tree, at any level, generateMerkleProof takes the node itself as the
  path element (with position bit 0) when the node stands at an even position and the
  position after it is out of bounds. In a tree of three leaves the second layer is
  \<open>[H a b, H c c]\<close> and the proof of leaf 2 has leaf 2 itself as its level-0 path element.
\<close>

theorem odd_layer_duplicates_last:
  "(odd (length xs) \<longrightarrow> last (nextLayer H xs) = H (last xs) (last xs))
   \<and> (xs \<noteq> [] \<longrightarrow>
        (\<exists>t. buildMerkleTree H xs = Inr t \<and> layers t \<noteq> [] \<and> layers t ! 0 = xs
           \<and> (\<forall>k. k + 1 < length (layers t) \<longrightarrow> layers t ! (k + 1) = nextLayer H (layers t ! k))))
   \<and> (layers t \<noteq> [] \<and> i < length (layers t ! 0) \<and> k + 1 < length (layers t)
        \<and> even (i div 2 ^ k) \<and> \<not> i div 2 ^ k + 1 < length (layers t ! k) \<longrightarrow>
        (\<exists>p. generateMerkleProof t (int i) = Inr p
           \<and> pathElements p ! k = elem (layers t ! k) (i div 2 ^ k)
           \<and> pathIndices p ! k = 0))
   \<and> (\<exists>t p. buildMerkleTree H [a, b, c] = Inr t
           \<and> layers t = [[a, b, c], [H a b, H c c], [H (H a b) (H c c)]]
           \<and> generateMerkleProof t 2 = Inr p
           \<and> pathElements p = [Some c, Some (H a b)] \<and> pathIndices p = [0, 1])"
proof (intro conjI impI)
  assume "odd (length xs)"
  then show "last (nextLayer H xs) = H (last xs) (last xs)"
    by (rule last_nextLayer_odd)
next
  assume ne: "xs \<noteq> []"
  let ?t = "\<lparr>layers = layers_from H xs, root = elem (last (layers_from H xs)) 0\<rparr>"
  have L: "layers_from H xs = xs # tl (layers_from H xs)"
    using layers_from_not_Nil [of H xs] hd_layers_from [of H xs]
    by (cases "layers_from H xs") auto
  have "buildMerkleTree H xs = Inr ?t"
    using ne L by (simp add: buildMerkleTree_def build_loop_eq)
  moreover have "layers ?t \<noteq> []" by (simp add: layers_from_not_Nil)
  moreover have "layers ?t ! 0 = xs" by (simp, subst L) simp
  moreover have "\<forall>k. k + 1 < length (layers ?t) \<longrightarrow> layers ?t ! (k + 1) = nextLayer H (layers ?t ! k)"
    using layers_from_step [of _ H xs] by simp
  ultimately show "\<exists>t. buildMerkleTree H xs = Inr t \<and> layers t \<noteq> [] \<and> layers t ! 0 = xs
           \<and> (\<forall>k. k + 1 < length (layers t) \<longrightarrow> layers t ! (k + 1) = nextLayer H (layers t ! k))"
    by blast
next
  assume a: "layers t \<noteq> [] \<and> i < length (layers t ! 0) \<and> k + 1 < length (layers t)
        \<and> even (i div 2 ^ k) \<and> \<not> i div 2 ^ k + 1 < length (layers t ! k)"
  let ?path = "path_of (layers t) i"
  have g: "generateMerkleProof t (int i)
           = Inr \<lparr>pathElements = map fst ?path, pathIndices = map snd ?path\<rparr>"
    using a by (intro generate_any_tree) auto
  have len: "k < length ?path" using a by (auto simp: length_path_of)
  have ev: "(i div 2 ^ k) mod 2 = 0" using a by presburger
  have "?path ! k = (elem (layers t ! k) (i div 2 ^ k), 0)"
    using a ev by (simp add: path_of_nth sibling_of_def Let_def)
  then show "\<exists>p. generateMerkleProof t (int i) = Inr p
           \<and> pathElements p ! k = elem (layers t ! k) (i div 2 ^ k)
           \<and> pathIndices p ! k = 0"
    using g len by simp
next
  have l1: "layers_from H [a, b, c] = [[a, b, c], [H a b, H c c], [H (H a b) (H c c)]]"
    by (subst layers_from.simps, subst layers_from.simps, subst layers_from.simps) simp
  have b: "buildMerkleTree H [a, b, c]
        = Inr \<lparr>layers = [[a, b, c], [H a b, H c c], [H (H a b) (H c c)]], root = Some (H (H a b) (H c c))\<rparr>"
    by (simp add: buildMerkleTree_def build_loop_eq l1 elem_def)
  have g: "generateMerkleProof
             \<lparr>layers = [[a, b, c], [H a b, H c c], [H (H a b) (H c c)]], root = Some (H (H a b) (H c c))\<rparr> 2
        = Inr \<lparr>pathElements = [Some c, Some (H a b)], pathIndices = [0, 1]\<rparr>"
    by (simp add: generateMerkleProof_def proof_loop_eq elem_def sibling_of_def Let_def numeral_2_eq_2)
  show "\<exists>t p. buildMerkleTree H [a, b, c] = Inr t
           \<and> layers t = [[a, b, c], [H a b, H c c], [H (H a b) (H c c)]]
           \<and> generateMerkleProof t 2 = Inr p
           \<and> pathElements p = [Some c, Some (H a b)] \<and> pathIndices p = [0, 1]"
    using b g by simp
qed

theorem odd_layer_duplicates_last_witness:
  "odd (length [5, 6, 7 :: nat])
   \<and> last (nextLayer (\<lambda>a b. a + 2 * b) [5, 6, 7]) = 7 + 2 * 7
   \<and> [5, 6, 7 :: nat] \<noteq> []
   \<and> (\<exists>t. buildMerkleTree (\<lambda>a b. a + 2 * b) [5, 6, 7] = Inr t \<and> layers t ! 0 = [5, 6, 7]
          \<and> (\<forall>k. k + 1 < length (layers t) \<longrightarrow>
                 layers t ! (k + 1) = nextLayer (\<lambda>a b. a + 2 * b) (layers t ! k)))
   \<and> (\<exists>p. generateMerkleProof \<lparr>layers = [[5, 6, 7], [17, 21], [59]], root = Some 59\<rparr> (int 2) = Inr p
          \<and> pathElements p ! 0 = Some 7 \<and> pathIndices p ! 0 = 0)"
  using odd_layer_duplicates_last
    [of "[5, 6, 7]" "\<lambda>a b. a + 2 * b" "\<lparr>layers = [[5, 6, 7], [17, 21], [59]], root = Some 59\<rparr>" 2 0 5 6 7]
  by (auto simp: elem_def)

section \<open>The field encoder: proofs\<close>

lemma bytes_val_take31: "bytes_val s = foldl (\<lambda>result b. result * 256 + of_char b) 0 (take 31 s)"
  by (simp add: bytes_val_def min_def)

lemma leaf_loop_cong:
  "valueToFieldElement v = valueToFieldElement v' \<Longrightarrow>
   leaf_loop P (flds(k \<mapsto> v)) order = leaf_loop P (flds(k \<mapsto> v')) order"
  by (induction order) (auto simp: computeLeafHash_def poseidonHash_def split: option.splits sum.splits)

text \<open>
  Claim C10. The encoding of non-numeric strings is not injective: two non-numeric strings
  whose bytes agree on the first 31 (in particular two such strings of at least 31 bytes)
  are encoded as the same field element, and two credentials that differ only in such an
  attribute value have the same leaves, the same tree and the same root.
\<close>

theorem encoding_ignores_bytes_after_31:
  assumes "\<not> numeric s" and "\<not> numeric s'" and "take 31 s = take 31 s'"
  shows "valueToFieldElement (StringV s) = valueToFieldElement (StringV s')
       \<and> computeCredentialRoot P (flds(k \<mapsto> StringV s)) order
           = computeCredentialRoot P (flds(k \<mapsto> StringV s')) order"
proof -
  have v: "valueToFieldElement (StringV s) = valueToFieldElement (StringV s')"
    using assms by (simp add: bytes_val_take31)
  then show ?thesis
    by (simp add: computeCredentialRoot_def leaf_loop_cong [OF v])
qed

lemma encode_dob: "valueToFieldElement (StringV ''19900101'') = Inr 19900101"
  by (simp add: numeric_def is_digit_def dec_val_def digit_val_def)

lemma encode_address:
  "valueToFieldElement (StringV ''123 Main Street, Springfield, Illinois 62701'')
     = Inr 86921971850586215930109738830116379120471795231085440376643340477001375817"
  by (simp add: numeric_def is_digit_def bytes_val_def)

lemma sample_root_defined:
  "\<exists>r. computeCredentialRoot (\<lambda>xs. nat (sum_list xs))
         ([''dob'' \<mapsto> StringV ''19900101'',
           ''address'' \<mapsto> StringV ''123 Main Street, Springfield, Illinois 62701''])
         [''dob'', ''address''] = Inr r"
  by (simp add: computeCredentialRoot_def computeLeafHash_def poseidonHash_def encode_dob encode_address
        buildMerkleTree_def build_loop.simps
      del: valueToFieldElement.simps split: prod.splits)

theorem encoding_ignores_bytes_after_31_witness:
  "\<not> numeric ''123 Main Street, Springfield, Illinois 62701''
   \<and> \<not> numeric ''123 Main Street, Springfield, Indiana 46001''
   \<and> 31 \<le> length ''123 Main Street, Springfield, Illinois 62701''
   \<and> 31 \<le> length ''123 Main Street, Springfield, Indiana 46001''
   \<and> take 31 ''123 Main Street, Springfield, Illinois 62701''
       = take 31 ''123 Main Street, Springfield, Indiana 46001''
   \<and> ''123 Main Street, Springfield, Illinois 62701'' \<noteq> ''123 Main Street, Springfield, Indiana 46001''
   \<and> valueToFieldElement (StringV ''123 Main Street, Springfield, Illinois 62701'')
       = Inr 86921971850586215930109738830116379120471795231085440376643340477001375817
   \<and> valueToFieldElement (StringV ''123 Main Street, Springfield, Indiana 46001'')
       = Inr 86921971850586215930109738830116379120471795231085440376643340477001375817
   \<and> (\<exists>r. computeCredentialRoot (\<lambda>xs. nat (sum_list xs))
         ([''dob'' \<mapsto> StringV ''19900101'',
           ''address'' \<mapsto> StringV ''123 Main Street, Springfield, Illinois 62701''])
         [''dob'', ''address''] = Inr r
       \<and> computeCredentialRoot (\<lambda>xs. nat (sum_list xs))
         ([''dob'' \<mapsto> StringV ''19900101'',
           ''address'' \<mapsto> StringV ''123 Main Street, Springfield, Indiana 46001''])
         [''dob'', ''address''] = Inr r)"
proof -
  have a: "\<not> numeric ''123 Main Street, Springfield, Illinois 62701''"
    and b: "\<not> numeric ''123 Main Street, Springfield, Indiana 46001''"
    by (simp_all add: numeric_def is_digit_def)
  have c: "take 31 ''123 Main Street, Springfield, Illinois 62701''
       = take 31 ''123 Main Street, Springfield, Indiana 46001''"
    by simp
  note T = encoding_ignores_bytes_after_31 [OF a b c, of "\<lambda>xs. nat (sum_list xs)"
        "[''dob'' \<mapsto> StringV ''19900101'']" "''address''" "[''dob'', ''address'']"]
  have d: "valueToFieldElement (StringV ''123 Main Street, Springfield, Indiana 46001'')
       = Inr 86921971850586215930109738830116379120471795231085440376643340477001375817"
    using T encode_address by simp
  have e: "\<exists>r. computeCredentialRoot (\<lambda>xs. nat (sum_list xs))
         ([''dob'' \<mapsto> StringV ''19900101'',
           ''address'' \<mapsto> StringV ''123 Main Street, Springfield, Illinois 62701''])
         [''dob'', ''address''] = Inr r
       \<and> computeCredentialRoot (\<lambda>xs. nat (sum_list xs))
         ([''dob'' \<mapsto> StringV ''19900101'',
           ''address'' \<mapsto> StringV ''123 Main Street, Springfield, Indiana 46001''])
         [''dob'', ''address''] = Inr r"
    using T sample_root_defined by auto
  show ?thesis
    using a b c d e encode_address by simp
qed

section \<open>The contract: proofs\<close>

lemmas key_defs = credentialKey_def compositeKey_def
lemmas stub_defs = getState_def putState_def setEvent_def

lemma stub_credentialKey_simps [simp]:
  "userID \<noteq> [] \<Longrightarrow> stub_credentialKey userID = Inr (credentialKey userID)"
  "stub_credentialKey [] = Inl KeyAttributeEmpty"
  by (simp_all add: stub_credentialKey_def createCompositeKey_def credentialKey_def)

lemma createCompositeKey_pair [simp]:
  "objectType \<noteq> [] \<Longrightarrow>
   createCompositeKey objectType [u, t]
     = (if u = [] \<or> t = [] then Inl KeyAttributeEmpty else Inr (compositeKey objectType [u, t]))"
  by (auto simp: createCompositeKey_def)

lemma trimStart_Nil [simp]: "trimStart [] = []"
  by (subst trimStart.simps) (simp add: ws_chars_def)

lemma trim_18 [simp]: "trimStart ''18'' = ''18''" "trimEnd ''18'' = ''18''"
  by (subst trimStart.simps, simp add: ws_chars_def, subst trimEnd.simps, simp add: ws_chars_def)

lemma to_binary64_small: "\<bar>n\<bar> < 2 ^ 53 \<Longrightarrow> to_binary64 n = Num (of_int n)"
  by (simp add: to_binary64_def Let_def nat_less_iff)

text \<open>The number and string helpers at sample inputs: rounding above \<open>2^53\<close> (a tie goes to
  the even neighbour), the overflow to an infinity, and white space of more than one byte.\<close>

lemma to_binary64_rounds:
  "to_binary64 9007199254740993 = Num 9007199254740992"
  "to_binary64 9007199254740995 = Num 9007199254740996"
  "to_binary64 (- 9007199254740993) = Num (- 9007199254740992)"
  by (simp_all add: to_binary64_def bit_length.simps Let_def)

lemma to_binary64_overflows: "to_binary64 (2 ^ 1024) = PosInf"
  by (simp add: to_binary64_def bit_length.simps Let_def)

lemma trim_unicode:
  "trimStart [CHR 0xC2, CHR 0xA0, CHR 0x09, CHR ''1'', CHR ''8''] = ''18''"
  "trimEnd [CHR ''1'', CHR ''8'', CHR 0xE2, CHR 0x80, CHR 0xA8] = ''18''"
  by (simp_all add: trimStart.simps trimEnd.simps ws_chars_def)

lemma parseInt10_examples:
  "parseInt10 ''-5'' = Num (- 5)"
  "parseInt10 ''abc'' = NaN"
  "parseInt10 '' 18abc'' = Num 18"
  by (simp_all add: parseInt10_def trimStart.simps ws_chars_def is_digit_def dec_val_def
        digit_val_def to_binary64_small)

lemma credentialKey_inj [simp]: "credentialKey u = credentialKey u' \<longleftrightarrow> u = u'"
  by (simp add: key_defs)

lemma verification_key_neq [simp]:
  "compositeKey ''verification'' as \<noteq> credentialKey u"
  "compositeKey ''ageVerification'' as \<noteq> credentialKey u"
  "credentialKey u \<noteq> compositeKey ''verification'' as"
  "credentialKey u \<noteq> compositeKey ''ageVerification'' as"
  by (simp_all add: key_defs)

text \<open>
  Claim C5. Issue is write-once. With both arguments present, issuing for a holder who has
  a credential throws the already-exists error and leaves the context, and so the stored
  credential, exactly as it was; with any arguments, issuing for such a holder throws and
  changes nothing; whenever IssueCredential throws it has written nothing.
  With both arguments present and no credential stored, it stores the credential with
  \<open>valid = true\<close> and the given hash under the holder's key, touches no other key, and
  sets the IssueCredential event.
\<close>

theorem issue_write_once:
  "(userID \<noteq> [] \<and> credentialHash \<noteq> [] \<and> getState c (credentialKey userID) \<noteq> None \<longrightarrow>
      IssueCredential v h c userID credentialHash issuer timestamp
        = (Inl (AlreadyExists userID), c))
   \<and> (getState c (credentialKey userID) \<noteq> None \<longrightarrow>
      (\<exists>e. IssueCredential v h c userID credentialHash issuer timestamp = (Inl e, c)))
   \<and> (\<forall>e. fst (IssueCredential v h c userID credentialHash issuer timestamp) = Inl e \<longrightarrow>
      snd (IssueCredential v h c userID credentialHash issuer timestamp) = c)
   \<and> (userID \<noteq> [] \<and> credentialHash \<noteq> [] \<and> getState c (credentialKey userID) = None \<longrightarrow>
      (\<exists>props c'.
         IssueCredential v h c userID credentialHash issuer timestamp = (Inr (JObj props), c')
         \<and> getState c' (credentialKey userID) = Some (JObj props)
         \<and> map_of props ''valid'' = Some (JBool True)
         \<and> map_of props ''credentialHash'' = Some (JStr credentialHash)
         \<and> event c' = Some (''IssueCredential'',
               JObj [(''userID'', JStr userID), (''credentialHash'', JStr credentialHash)])
         \<and> (\<forall>k. k \<noteq> credentialKey userID \<longrightarrow> getState c' k = getState c k)))"
proof (intro conjI allI impI)
  assume "userID \<noteq> [] \<and> credentialHash \<noteq> [] \<and> getState c (credentialKey userID) \<noteq> None"
  then show "IssueCredential v h c userID credentialHash issuer timestamp
        = (Inl (AlreadyExists userID), c)"
    by (auto simp: IssueCredential_def)
next
  assume "getState c (credentialKey userID) \<noteq> None"
  then show "\<exists>e. IssueCredential v h c userID credentialHash issuer timestamp = (Inl e, c)"
    by (auto simp: IssueCredential_def)
next
  fix e
  assume "fst (IssueCredential v h c userID credentialHash issuer timestamp) = Inl e"
  then show "snd (IssueCredential v h c userID credentialHash issuer timestamp) = c"
    by (auto simp: IssueCredential_def Let_def split: if_splits option.splits sum.splits)
next
  assume a: "userID \<noteq> [] \<and> credentialHash \<noteq> [] \<and> getState c (credentialKey userID) = None"
  let ?props = "[(''credentialHash'', JStr credentialHash),
                 (''issuer'', JStr (if issuer \<noteq> [] then issuer else ''unknown'')),
                 (''timestamp'', JStr (if timestamp \<noteq> [] then timestamp else clock v h c)),
                 (''valid'', JBool True)]"
  let ?c' = "setEvent (putState c (credentialKey userID) (JObj ?props)) ''IssueCredential''
               (JObj [(''userID'', JStr userID), (''credentialHash'', JStr credentialHash)])"
  have r: "IssueCredential v h c userID credentialHash issuer timestamp = (Inr (JObj ?props), ?c')"
    using a by (simp add: IssueCredential_def Let_def)
  have "getState ?c' (credentialKey userID) = Some (JObj ?props)"
    by (simp add: stub_defs update_conv')
  moreover have "map_of ?props ''valid'' = Some (JBool True)"
    and "map_of ?props ''credentialHash'' = Some (JStr credentialHash)"
    by simp_all
  moreover have "event ?c' = Some (''IssueCredential'',
               JObj [(''userID'', JStr userID), (''credentialHash'', JStr credentialHash)])"
    by (simp add: stub_defs)
  moreover have "\<forall>k. k \<noteq> credentialKey userID \<longrightarrow> getState ?c' k = getState c k"
    by (simp add: stub_defs update_conv')
  ultimately show "\<exists>props c'.
         IssueCredential v h c userID credentialHash issuer timestamp = (Inr (JObj props), c')
         \<and> getState c' (credentialKey userID) = Some (JObj props)
         \<and> map_of props ''valid'' = Some (JBool True)
         \<and> map_of props ''credentialHash'' = Some (JStr credentialHash)
         \<and> event c' = Some (''IssueCredential'',
               JObj [(''userID'', JStr userID), (''credentialHash'', JStr credentialHash)])
         \<and> (\<forall>k. k \<noteq> credentialKey userID \<longrightarrow> getState c' k = getState c k)"
    using r by blast
qed

lemma VerifyAge_single_reject:
  "fst (VerifyAge_single h c u m p s) = Inl e \<Longrightarrow> snd (VerifyAge_single h c u m p s) = c"
  by (auto simp: VerifyAge_single_def Let_def split: if_splits sum.splits json.splits prod.splits)

lemma VerifyAge_three_reject:
  "fst (VerifyAge_three h c u m p s) = Inl e \<Longrightarrow> snd (VerifyAge_three h c u m p s) = c"
  by (auto simp: VerifyAge_three_def Let_def split: if_splits sum.splits json.splits prod.splits jsnum.splits)

lemma VerifyAge_ignores_ledger:
  "fst (VerifyAge_single h (c\<lparr>state := st\<rparr>) u m p s) = fst (VerifyAge_single h c u m p s)"
  "fst (VerifyAge_three h (c\<lparr>state := st\<rparr>) u m p s) = fst (VerifyAge_three h c u m p s)"
  by (auto simp: VerifyAge_single_def VerifyAge_three_def Let_def
           split: sum.splits prod.splits json.splits jsnum.splits)

lemma VerifyAge_single_accept:
  "fst (VerifyAge_single h c u m p s) = Inr r \<Longrightarrow>
   \<exists>props. getState (snd (VerifyAge_single h c u m p s)) (compositeKey ''ageVerification'' [u, txID c]) = Some (JObj props)
     \<and> map_of props ''isOfAge'' = Some (JBool True) \<and> map_of props ''userID'' = Some (JStr u)
     \<and> map_of props ''txID'' = Some (JStr (txID c))"
  by (auto simp: VerifyAge_single_def Let_def stub_defs update_conv' split: if_splits sum.splits json.splits prod.splits)

lemma VerifyAge_three_accept:
  "fst (VerifyAge_three h c u m p s) = Inr r \<Longrightarrow>
   \<exists>props. getState (snd (VerifyAge_three h c u m p s)) (compositeKey ''ageVerification'' [u, txID c]) = Some (JObj props)
     \<and> map_of props ''isOfAge'' = Some (JBool True) \<and> map_of props ''userID'' = Some (JStr u)
     \<and> map_of props ''txID'' = Some (JStr (txID c))"
  by (auto simp: VerifyAge_three_def Let_def stub_defs update_conv' split: if_splits sum.splits json.splits prod.splits jsnum.splits)


lemma map_of_update_other: "k' \<noteq> k \<Longrightarrow> map_of (AList.update k v al) k' = map_of al k'"
  by (simp add: update_conv')


lemma VerifyAge_state:
  "state (snd (VerifyAge_three h c u m p s)) = state c
   \<or> (\<exists>rec. state (snd (VerifyAge_three h c u m p s))
          = AList.update (compositeKey ''ageVerification'' [u, txID c]) rec (state c))"
  "state (snd (VerifyAge_single h c u m p s)) = state c
   \<or> (\<exists>rec. state (snd (VerifyAge_single h c u m p s))
          = AList.update (compositeKey ''ageVerification'' [u, txID c]) rec (state c))"
  by (auto simp: VerifyAge_three_def VerifyAge_single_def Let_def stub_defs
           split: sum.splits prod.splits json.splits jsnum.splits)

lemma revoked_update_other:
  "k \<noteq> credentialKey u \<Longrightarrow> revoked (AList.update k v st) u = revoked st u"
  by (simp add: revoked_def update_conv')

lemma stored_hash_update_other:
  "k \<noteq> credentialKey u \<Longrightarrow> stored_hash (AList.update k v st) u = stored_hash st u"
  by (simp add: stored_hash_def update_conv')

lemma invoke_Age_snd:
  "state (snd (invoke v h c (Age u m p s))) = state c
   \<or> (\<exists>rec. state (snd (invoke v h c (Age u m p s)))
          = AList.update (compositeKey ''ageVerification'' [u, txID c]) rec (state c))"
  using VerifyAge_state [of h c u m p s] by (cases v) auto

lemma invoke_keeps_revoked:
  assumes "revoked (state c) u"
  shows "case invoke v h c cl of (Inl e, c') \<Rightarrow> True | (Inr r, c') \<Rightarrow> revoked (state c') u"
proof (cases cl)
  case (Issue u' ch iss ts)
  then show ?thesis using assms
    by (cases "u' = u")
       (auto simp: IssueCredential_def revoked_def stub_defs Let_def update_conv'
             split: option.splits json.splits)
next
  case (Get u')
  then show ?thesis using assms by (auto simp: GetCredential_def split: option.splits)
next
  case (Revoke u' reason)
  then show ?thesis using assms
    by (cases "u' = u")
       (auto simp: RevokeCredential_def revoked_def stub_defs Let_def update_conv'
             split: option.splits json.splits)
next
  case (Verify u' p s)
  then show ?thesis using assms
    by (auto simp: VerifyProof_def revoked_def stub_defs Let_def update_conv'
             split: sum.splits prod.splits)
next
  case (Age u' m p s)
  then show ?thesis using assms invoke_Age_snd [of v h c u' m p s]
    by (auto simp: revoked_update_other split: prod.splits sum.splits)
next
  case Query
  then show ?thesis using assms by (simp add: QueryVerifications_def Let_def)
qed

lemma invoke_keeps_hash:
  assumes "stored_hash (state c) u = Some x"
  shows "case invoke v h c cl of (Inl e, c') \<Rightarrow> True | (Inr r, c') \<Rightarrow> stored_hash (state c') u = Some x"
proof (cases cl)
  case (Issue u' ch iss ts)
  then show ?thesis using assms
    by (cases "u' = u")
       (auto simp: IssueCredential_def stored_hash_def stub_defs Let_def update_conv'
             split: option.splits json.splits)
next
  case (Get u')
  then show ?thesis using assms by (auto simp: GetCredential_def split: option.splits)
next
  case (Revoke u' reason)
  then show ?thesis using assms
    by (cases "u' = u")
       (auto simp: RevokeCredential_def stored_hash_def stub_defs Let_def update_conv'
             split: option.splits json.splits)
next
  case (Verify u' p s)
  then show ?thesis using assms
    by (auto simp: VerifyProof_def stored_hash_def stub_defs Let_def update_conv'
             split: sum.splits prod.splits)
next
  case (Age u' m p s)
  then show ?thesis using assms invoke_Age_snd [of v h c u' m p s]
    by (auto simp: stored_hash_update_other split: prod.splits sum.splits)
next
  case Query
  then show ?thesis using assms by (simp add: QueryVerifications_def Let_def)
qed

lemma invoke_keeps_distinct:
  assumes "distinct (map fst (state c))"
  shows "distinct (map fst (state (snd (invoke v h c cl))))"
proof (cases cl)
  case (Issue u' ch iss ts)
  then show ?thesis using assms
    by (auto simp: IssueCredential_def stub_defs Let_def distinct_update split: option.splits)
next
  case (Get u')
  then show ?thesis using assms by (auto simp: GetCredential_def split: option.splits)
next
  case (Revoke u' reason)
  then show ?thesis using assms
    by (auto simp: RevokeCredential_def stub_defs Let_def distinct_update split: option.splits json.splits)
next
  case (Verify u' p s)
  then show ?thesis using assms
    by (auto simp: VerifyProof_def stub_defs Let_def distinct_update split: sum.splits prod.splits)
next
  case (Age u' m p s)
  then show ?thesis using assms invoke_Age_snd [of v h c u' m p s]
    by (auto simp: distinct_update)
next
  case Query
  then show ?thesis using assms by (simp add: QueryVerifications_def Let_def)
qed

lemma commit_keeps_revoked: "revoked st u \<Longrightarrow> revoked (commit v st t) u"
  using invoke_keeps_revoked [of "\<lparr>state = st, txID = tx_id t, txTimestamp = tx_seconds t, event = None\<rparr>" u v "tx_host t" "tx_call t"]
  by (auto simp: commit_def split: prod.splits sum.splits)

lemma commit_keeps_hash: "stored_hash st u = Some x \<Longrightarrow> stored_hash (commit v st t) u = Some x"
  using invoke_keeps_hash [of "\<lparr>state = st, txID = tx_id t, txTimestamp = tx_seconds t, event = None\<rparr>" u x v "tx_host t" "tx_call t"]
  by (auto simp: commit_def split: prod.splits sum.splits)

lemma commit_keeps_distinct: "distinct (map fst st) \<Longrightarrow> distinct (map fst (commit v st t))"
  using invoke_keeps_distinct [of "\<lparr>state = st, txID = tx_id t, txTimestamp = tx_seconds t, event = None\<rparr>" v "tx_host t" "tx_call t"]
  by (auto simp: commit_def split: prod.splits sum.splits)

text \<open>
  Claim C9. Revocation is one-way and a holder has one credential: for both copies of the
  contract, every ledger and every sequence of transactions calling the six operations, a
  credential that is revoked stays revoked, the hash stored for a holder never changes, the
  ledger keeps at most one document per key, and two holders never share a credential key.
\<close>

theorem revocation_one_way:
  "(revoked st u \<longrightarrow> revoked (run v st txs) u)
   \<and> (\<forall>x. stored_hash st u = Some x \<longrightarrow> stored_hash (run v st txs) u = Some x)
   \<and> (distinct (map fst st) \<longrightarrow> distinct (map fst (run v st txs)))
   \<and> (credentialKey u = credentialKey u' \<longrightarrow> u = u')"
proof (induction txs arbitrary: st)
  case Nil
  show ?case by (simp add: run_def)
next
  case (Cons t txs)
  have r: "run v st (t # txs) = run v (commit v st t) txs" by (simp add: run_def)
  show ?case
    unfolding r
    using Cons.IH [of "commit v st t"] commit_keeps_revoked [of st u v t]
      commit_keeps_hash [of st u _ v t] commit_keeps_distinct [of st v t]
    by blast
qed

lemma payload_ignores_wall_clock:
  "verifyGroth16Payload v (h\<lparr>Date_now := d\<rparr>) p s = verifyGroth16Payload v h p s"
  by (auto simp: verifyGroth16Payload_def split: option.splits)

lemma single_signal_ignores_wall_clock:
  "commit SingleSignal st (t\<lparr>tx_host := (tx_host t)\<lparr>Date_now := d\<rparr>\<rparr>) = commit SingleSignal st t"
proof -
  have "invoke SingleSignal ((tx_host t)\<lparr>Date_now := d\<rparr>) c cl = invoke SingleSignal (tx_host t) c cl" for c cl
    by (cases cl)
       (simp_all add: IssueCredential_def GetCredential_def RevokeCredential_def
          VerifyProof_def VerifyAge_single_def QueryVerifications_def payload_ignores_wall_clock
          Let_def
          split: option.splits sum.splits json.splits prod.splits)
  then show ?thesis by (simp add: commit_def)
qed

subsection \<open>The sample transactions, evaluated\<close>

lemma reach_issued: "run SingleSignal [] [tx_issue] = st_issued"
  by (simp add: run_def commit_def tx_issue_def st_issued_def IssueCredential_def stub_defs key_defs Let_def)

lemma reach_revoked: "run SingleSignal [] [tx_issue, tx_revoke] = st_revoked"
  by (simp add: run_def commit_def tx_issue_def tx_revoke_def st_revoked_def IssueCredential_def
      RevokeCredential_def stub_defs key_defs sample_host_def Let_def)

lemma sample_parse_simps:
  "sample_parse sample_proof = Some sample_proof_json"
  \<open>sample_parse ''["1"]'' = Some (JArr [JStr ''1''])\<close>
  \<open>sample_parse ''["0"]'' = Some (JArr [JStr ''0''])\<close>
  \<open>sample_parse ''["1","222"]'' = Some (JArr [JStr ''1'', JStr ''222''])\<close>
  \<open>sample_parse ''["18","111","1"]'' = Some (JArr [JStr ''18'', JStr ''111'', JStr ''1''])\<close>
  \<open>sample_parse ''["18","222","1"]'' = Some (JArr [JStr ''18'', JStr ''222'', JStr ''1''])\<close>
  \<open>sample_parse ''["18","111","0"]'' = Some (JArr [JStr ''18'', JStr ''111'', JStr ''0''])\<close>
  by (simp_all add: sample_parse_def sample_proof_def)

lemma sample_proof_nonempty: "sample_proof \<noteq> []"
  by (simp add: sample_proof_def)

lemma parseInt10_18: "parseInt10 ''18'' = Num 18"
  by (simp add: parseInt10_def is_digit_def dec_val_def digit_val_def to_binary64_small)

lemma BigInt_18: "BigInt_of_string ''18'' = Some 18"
  by (simp add: BigInt_of_string_def trim_def radix_val_def hex_val_char_def)

lemma sample_payload:
  "sample_parse s = Some j \<Longrightarrow> s \<noteq> [] \<Longrightarrow>
   verifyGroth16Payload v sample_host sample_proof s = Inr (True, j)"
  "sample_parse s = Some j \<Longrightarrow> s \<noteq> [] \<Longrightarrow>
   verifyGroth16Payload v rejecting_host sample_proof s = Inr (False, j)"
  by (simp_all add: verifyGroth16Payload_def sample_host_def rejecting_host_def
        sample_parse_simps sample_proof_nonempty sample_proof_json_def)

lemmas eval_defs = VerifyAge_single_def VerifyAge_three_def sample_payload sample_parse_simps
  ctx_of_def Let_def parseInt10_18 BigInt_18 to_binary64_small

text \<open>
  Claim C2 at a concrete input. The holder \<open>u1\<close> is issued the hash \<open>111\<close>. VerifyAge with a
  proof the verifier accepts and public signals that carry the root \<open>222\<close> returns the
  accepted outcome in both copies of the contract: neither reads the stored credential, so
  no root is compared and no root-mismatch error exists.
\<close>

theorem root_not_compared:
  \<open>run SingleSignal [] [tx_issue] = st_issued
   \<and> stored_hash st_issued ''u1'' = Some (JStr ''111'')
   \<and> fst (VerifyAge_single sample_host (ctx_of st_issued ''tx3'') ''u1'' ''18'' sample_proof ''["1","222"]'')
       = Inr (JObj [(''valid'', JBool True), (''isOfAge'', JBool True)])
   \<and> fst (VerifyAge_three sample_host (ctx_of st_issued ''tx3'') ''u1'' ''18'' sample_proof ''["18","222","1"]'')
       = Inr (JObj [(''valid'', JBool True), (''minimumAge'', JNum 18)])\<close>
proof (intro conjI)
  show "run SingleSignal [] [tx_issue] = st_issued" by (rule reach_issued)
  show "stored_hash st_issued ''u1'' = Some (JStr ''111'')"
    by (simp add: stored_hash_def st_issued_def)
  show \<open>fst (VerifyAge_single sample_host (ctx_of st_issued ''tx3'') ''u1'' ''18'' sample_proof ''["1","222"]'')
       = Inr (JObj [(''valid'', JBool True), (''isOfAge'', JBool True)])\<close>
    by (simp add: eval_defs)
  show \<open>fst (VerifyAge_three sample_host (ctx_of st_issued ''tx3'') ''u1'' ''18'' sample_proof ''["18","222","1"]'')
       = Inr (JObj [(''valid'', JBool True), (''minimumAge'', JNum 18)])\<close>
    by (simp add: eval_defs)
qed

text \<open>
  Claim C3 at a concrete input. The holder \<open>u1\<close> is issued a credential, which is then
  revoked. VerifyAge with a proof the verifier accepts returns the accepted outcome in both
  copies of the contract: neither reads the stored credential's \<open>valid\<close> field.
\<close>

theorem revoked_credential_accepted:
  \<open>run SingleSignal [] [tx_issue, tx_revoke] = st_revoked
   \<and> revoked st_revoked ''u1''
   \<and> fst (VerifyAge_single sample_host (ctx_of st_revoked ''tx3'') ''u1'' ''18'' sample_proof ''["1"]'')
       = Inr (JObj [(''valid'', JBool True), (''isOfAge'', JBool True)])
   \<and> fst (VerifyAge_three sample_host (ctx_of st_revoked ''tx3'') ''u1'' ''18'' sample_proof ''["18","111","1"]'')
       = Inr (JObj [(''valid'', JBool True), (''minimumAge'', JNum 18)])\<close>
proof (intro conjI)
  show "run SingleSignal [] [tx_issue, tx_revoke] = st_revoked" by (rule reach_revoked)
  show "revoked st_revoked ''u1''"
    by (simp add: revoked_def st_revoked_def)
  show \<open>fst (VerifyAge_single sample_host (ctx_of st_revoked ''tx3'') ''u1'' ''18'' sample_proof ''["1"]'')
       = Inr (JObj [(''valid'', JBool True), (''isOfAge'', JBool True)])\<close>
    by (simp add: eval_defs)
  show \<open>fst (VerifyAge_three sample_host (ctx_of st_revoked ''tx3'') ''u1'' ''18'' sample_proof ''["18","111","1"]'')
       = Inr (JObj [(''valid'', JBool True), (''minimumAge'', JNum 18)])\<close>
    by (simp add: eval_defs)
qed

text \<open>
  Claim C8 at a concrete input. In the copy that stamps with \<^verbatim>\<open>new Date()\<close>, the same
  revocation transaction executed on two nodes whose wall clocks differ by a second commits
  two different ledgers: \<open>revokedAt\<close> is the wall clock of the executing node.
\<close>

theorem wall_clock_reaches_ledger:
  "later_host = sample_host\<lparr>Date_now := ''2024-11-24T10:15:31.000Z''\<rparr>
   \<and> commit ThreeSignal st_issued tx_revoke
       = [(credentialKey ''u1'',
           JObj [(''credentialHash'', JStr ''111''),
                 (''issuer'', JStr ''TrustedIssuer''),
                 (''timestamp'', JStr ''2024-11-24T00:00:00Z''),
                 (''valid'', JBool False),
                 (''revokedAt'', JStr ''2024-11-24T10:15:30.000Z''),
                 (''revocationReason'', JStr ''Security breach'')])]
   \<and> commit ThreeSignal st_issued (tx_revoke\<lparr>tx_host := later_host\<rparr>)
       = [(credentialKey ''u1'',
           JObj [(''credentialHash'', JStr ''111''),
                 (''issuer'', JStr ''TrustedIssuer''),
                 (''timestamp'', JStr ''2024-11-24T00:00:00Z''),
                 (''valid'', JBool False),
                 (''revokedAt'', JStr ''2024-11-24T10:15:31.000Z''),
                 (''revocationReason'', JStr ''Security breach'')])]
   \<and> commit ThreeSignal st_issued tx_revoke
       \<noteq> commit ThreeSignal st_issued (tx_revoke\<lparr>tx_host := later_host\<rparr>)"
  by (simp add: later_host_def commit_def tx_revoke_def st_issued_def RevokeCredential_def
        stub_defs sample_host_def Let_def)

text \<open>
  Claim C6 does not hold as stated: a VerifyAge call rejected because the verifier returns
  false, or because the adulthood signal is not \<open>"1"\<close>, throws and leaves the context as it
  was; the ledger still holds the credential only, and no record of the attempt.
\<close>

theorem rejection_writes_no_record:
  \<open>VerifyAge_single rejecting_host (ctx_of st_issued ''tx3'') ''u1'' ''18'' sample_proof ''["1"]''
     = (Inl ProofFailed, ctx_of st_issued ''tx3'')
   \<and> VerifyAge_three rejecting_host (ctx_of st_issued ''tx3'') ''u1'' ''18'' sample_proof ''["18","111","1"]''
     = (Inl ProofFailed, ctx_of st_issued ''tx3'')
   \<and> VerifyAge_single sample_host (ctx_of st_issued ''tx3'') ''u1'' ''18'' sample_proof ''["0"]''
     = (Inl NotAdult, ctx_of st_issued ''tx3'')
   \<and> map fst (state (ctx_of st_issued ''tx3'')) = [credentialKey ''u1'']\<close>
  by (simp add: eval_defs st_issued_def)

text \<open>
  Claim C6 as amended. A VerifyAge call that throws, at whichever step, has written
  nothing: the context is unchanged. A VerifyAge call that returns has stored a record with
  \<open>isOfAge = true\<close> under the \<open>ageVerification\<close> key of the holder and the transaction.
  VerifyProof writes nothing when it throws. When the verifier returns a verdict, true or
  false, and the holder id and the transaction id are both non-empty, VerifyProof returns
  that verdict and stores a record carrying it under the \<open>verification\<close> key of the holder
  and the transaction. When the verifier returns a verdict and the holder id or the
  transaction id is empty, VerifyProof throws the error of the key construction and writes
  nothing.
\<close>

theorem verification_record_only_on_accept:
  "(\<forall>e. fst (VerifyAge_single h c u m p s) = Inl e \<longrightarrow> snd (VerifyAge_single h c u m p s) = c)
   \<and> (\<forall>e. fst (VerifyAge_three h c u m p s) = Inl e \<longrightarrow> snd (VerifyAge_three h c u m p s) = c)
   \<and> (\<forall>r. fst (VerifyAge_single h c u m p s) = Inr r \<longrightarrow>
         (\<exists>props. getState (snd (VerifyAge_single h c u m p s))
                     (compositeKey ''ageVerification'' [u, txID c]) = Some (JObj props)
            \<and> map_of props ''isOfAge'' = Some (JBool True)
            \<and> map_of props ''userID'' = Some (JStr u)
            \<and> map_of props ''txID'' = Some (JStr (txID c))))
   \<and> (\<forall>r. fst (VerifyAge_three h c u m p s) = Inr r \<longrightarrow>
         (\<exists>props. getState (snd (VerifyAge_three h c u m p s))
                     (compositeKey ''ageVerification'' [u, txID c]) = Some (JObj props)
            \<and> map_of props ''isOfAge'' = Some (JBool True)
            \<and> map_of props ''userID'' = Some (JStr u)
            \<and> map_of props ''txID'' = Some (JStr (txID c))))
   \<and> (\<forall>e. fst (VerifyProof v h c u p s) = Inl e \<longrightarrow> snd (VerifyProof v h c u p s) = c)
   \<and> (\<forall>valid sigs. u \<noteq> [] \<and> txID c \<noteq> [] \<and> verifyGroth16Payload v h p s = Inr (valid, sigs) \<longrightarrow>
         fst (VerifyProof v h c u p s) = Inr (JObj [(''valid'', JBool valid)])
         \<and> (\<exists>props. getState (snd (VerifyProof v h c u p s))
                     (compositeKey ''verification'' [u, txID c]) = Some (JObj props)
            \<and> map_of props ''valid'' = Some (JBool valid)
            \<and> map_of props ''userID'' = Some (JStr u)
            \<and> map_of props ''txID'' = Some (JStr (txID c))))
   \<and> (\<forall>valid sigs. (u = [] \<or> txID c = []) \<and> verifyGroth16Payload v h p s = Inr (valid, sigs) \<longrightarrow>
         VerifyProof v h c u p s = (Inl KeyAttributeEmpty, c))"
proof -
  have vp1: "fst (VerifyProof v h c u p s) = Inl e \<Longrightarrow> snd (VerifyProof v h c u p s) = c" for e
    by (auto simp: VerifyProof_def Let_def split: sum.splits prod.splits if_splits)
  have vp2: "u \<noteq> [] \<Longrightarrow> txID c \<noteq> [] \<Longrightarrow> verifyGroth16Payload v h p s = Inr (valid, sigs) \<Longrightarrow>
         fst (VerifyProof v h c u p s) = Inr (JObj [(''valid'', JBool valid)])
         \<and> (\<exists>props. getState (snd (VerifyProof v h c u p s))
                     (compositeKey ''verification'' [u, txID c]) = Some (JObj props)
            \<and> map_of props ''valid'' = Some (JBool valid)
            \<and> map_of props ''userID'' = Some (JStr u)
            \<and> map_of props ''txID'' = Some (JStr (txID c)))" for valid sigs
    by (simp add: VerifyProof_def Let_def stub_defs update_conv')
  have vp3: "u = [] \<or> txID c = [] \<Longrightarrow> verifyGroth16Payload v h p s = Inr (valid, sigs) \<Longrightarrow>
         VerifyProof v h c u p s = (Inl KeyAttributeEmpty, c)" for valid sigs
    by (auto simp: VerifyProof_def)
  show ?thesis
    using VerifyAge_single_reject [of h c u m p s] VerifyAge_three_reject [of h c u m p s]
      VerifyAge_single_accept [of h c u m p s] VerifyAge_three_accept [of h c u m p s] vp1 vp2 vp3
    by blast
qed

subsection \<open>The theorems at the sample transactions\<close>

theorem issue_write_once_witness:
  "''u1'' \<noteq> [] \<and> ''222'' \<noteq> [] \<and> getState (ctx_of st_issued ''tx3'') (credentialKey ''u1'') \<noteq> None
   \<and> IssueCredential SingleSignal sample_host (ctx_of st_issued ''tx3'') ''u1'' ''222'' ''Other'' []
       = (Inl (AlreadyExists ''u1''), ctx_of st_issued ''tx3'')
   \<and> getState (ctx_of [] ''tx1'') (credentialKey ''u1'') = None
   \<and> (\<exists>props c'.
         IssueCredential SingleSignal sample_host (ctx_of [] ''tx1'') ''u1'' ''111'' ''TrustedIssuer'' []
           = (Inr (JObj props), c')
         \<and> getState c' (credentialKey ''u1'') = Some (JObj props)
         \<and> map_of props ''valid'' = Some (JBool True)
         \<and> event c' = Some (''IssueCredential'',
               JObj [(''userID'', JStr ''u1''), (''credentialHash'', JStr ''111'')]))"
proof -
  have a: "getState (ctx_of st_issued ''tx3'') (credentialKey ''u1'') \<noteq> None"
    by (simp add: getState_def ctx_of_def st_issued_def)
  have b: "getState (ctx_of [] ''tx1'') (credentialKey ''u1'') = None"
    by (simp add: getState_def ctx_of_def)
  show ?thesis
    using a b
      issue_write_once [of "''u1''" "''222''" "ctx_of st_issued ''tx3''" SingleSignal sample_host "''Other''" "[]"]
      issue_write_once [of "''u1''" "''111''" "ctx_of [] ''tx1''" SingleSignal sample_host "''TrustedIssuer''" "[]"]
    by auto
qed

theorem verification_record_only_on_accept_witness:
  \<open>fst (VerifyAge_single rejecting_host (ctx_of st_issued ''tx3'') ''u1'' ''18'' sample_proof ''["1"]'')
     = Inl ProofFailed
   \<and> snd (VerifyAge_single rejecting_host (ctx_of st_issued ''tx3'') ''u1'' ''18'' sample_proof ''["1"]'')
     = ctx_of st_issued ''tx3''
   \<and> fst (VerifyAge_three rejecting_host (ctx_of st_issued ''tx3'') ''u1'' ''18'' sample_proof ''["18","111","1"]'')
     = Inl ProofFailed
   \<and> snd (VerifyAge_three rejecting_host (ctx_of st_issued ''tx3'') ''u1'' ''18'' sample_proof ''["18","111","1"]'')
     = ctx_of st_issued ''tx3''
   \<and> fst (VerifyAge_single sample_host (ctx_of st_issued ''tx3'') ''u1'' ''18'' sample_proof ''["1"]'')
     = Inr (JObj [(''valid'', JBool True), (''isOfAge'', JBool True)])
   \<and> (\<exists>props. getState (snd (VerifyAge_single sample_host (ctx_of st_issued ''tx3'') ''u1'' ''18'' sample_proof ''["1"]''))
                     (compositeKey ''ageVerification'' [''u1'', ''tx3'']) = Some (JObj props)
            \<and> map_of props ''isOfAge'' = Some (JBool True))
   \<and> fst (VerifyAge_three sample_host (ctx_of st_issued ''tx3'') ''u1'' ''18'' sample_proof ''["18","111","1"]'')
     = Inr (JObj [(''valid'', JBool True), (''minimumAge'', JNum 18)])
   \<and> (\<exists>props. getState (snd (VerifyAge_three sample_host (ctx_of st_issued ''tx3'') ''u1'' ''18'' sample_proof ''["18","111","1"]''))
                     (compositeKey ''ageVerification'' [''u1'', ''tx3'']) = Some (JObj props)
            \<and> map_of props ''isOfAge'' = Some (JBool True))
   \<and> verifyGroth16Payload SingleSignal rejecting_host sample_proof ''["1"]'' = Inr (False, JArr [JStr ''1''])
   \<and> fst (VerifyProof SingleSignal rejecting_host (ctx_of st_issued ''tx3'') ''u1'' sample_proof ''["1"]'')
       = Inr (JObj [(''valid'', JBool False)])
   \<and> (\<exists>props. getState (snd (VerifyProof SingleSignal rejecting_host (ctx_of st_issued ''tx3'') ''u1'' sample_proof ''["1"]''))
                     (compositeKey ''verification'' [''u1'', ''tx3'']) = Some (JObj props)
            \<and> map_of props ''valid'' = Some (JBool False))
   \<and> VerifyProof SingleSignal rejecting_host (ctx_of st_issued ''tx3'') [] sample_proof ''["1"]''
       = (Inl KeyAttributeEmpty, ctx_of st_issued ''tx3'')\<close>
proof -
  have r1: \<open>fst (VerifyAge_single rejecting_host (ctx_of st_issued ''tx3'') ''u1'' ''18'' sample_proof ''["1"]'')
     = Inl ProofFailed\<close>
    by (simp add: eval_defs)
  have r3: \<open>fst (VerifyAge_three rejecting_host (ctx_of st_issued ''tx3'') ''u1'' ''18'' sample_proof ''["18","111","1"]'')
     = Inl ProofFailed\<close>
    by (simp add: eval_defs)
  have a1: \<open>fst (VerifyAge_single sample_host (ctx_of st_issued ''tx3'') ''u1'' ''18'' sample_proof ''["1"]'')
     = Inr (JObj [(''valid'', JBool True), (''isOfAge'', JBool True)])\<close>
    by (simp add: eval_defs)
  have a3: \<open>fst (VerifyAge_three sample_host (ctx_of st_issued ''tx3'') ''u1'' ''18'' sample_proof ''["18","111","1"]'')
     = Inr (JObj [(''valid'', JBool True), (''minimumAge'', JNum 18)])\<close>
    by (simp add: eval_defs)
  have p: \<open>verifyGroth16Payload SingleSignal rejecting_host sample_proof ''["1"]'' = Inr (False, JArr [JStr ''1''])\<close>
    by (simp add: eval_defs)
  have t: "txID (ctx_of st_issued ''tx3'') = ''tx3''"
    by (simp add: ctx_of_def)
  note R = verification_record_only_on_accept
    [of rejecting_host "ctx_of st_issued ''tx3''" "''u1''" "''18''" sample_proof _ SingleSignal]
  note A = verification_record_only_on_accept
    [of sample_host "ctx_of st_issued ''tx3''" "''u1''" "''18''" sample_proof _ SingleSignal]
  have x1: \<open>snd (VerifyAge_single rejecting_host (ctx_of st_issued ''tx3'') ''u1'' ''18'' sample_proof ''["1"]'')
     = ctx_of st_issued ''tx3''\<close>
    using r1 R [of \<open>''["1"]''\<close>] by blast
  have x3: \<open>snd (VerifyAge_three rejecting_host (ctx_of st_issued ''tx3'') ''u1'' ''18'' sample_proof ''["18","111","1"]'')
     = ctx_of st_issued ''tx3''\<close>
    using r3 R [of \<open>''["18","111","1"]''\<close>] by blast
  have y1: \<open>\<exists>props. getState (snd (VerifyAge_single sample_host (ctx_of st_issued ''tx3'') ''u1'' ''18'' sample_proof ''["1"]''))
                     (compositeKey ''ageVerification'' [''u1'', ''tx3'']) = Some (JObj props)
            \<and> map_of props ''isOfAge'' = Some (JBool True)\<close>
    using a1 A [of \<open>''["1"]''\<close>] unfolding t by blast
  have y3: \<open>\<exists>props. getState (snd (VerifyAge_three sample_host (ctx_of st_issued ''tx3'') ''u1'' ''18'' sample_proof ''["18","111","1"]''))
                     (compositeKey ''ageVerification'' [''u1'', ''tx3'']) = Some (JObj props)
            \<and> map_of props ''isOfAge'' = Some (JBool True)\<close>
    using a3 A [of \<open>''["18","111","1"]''\<close>] unfolding t by blast
  have z: \<open>fst (VerifyProof SingleSignal rejecting_host (ctx_of st_issued ''tx3'') ''u1'' sample_proof ''["1"]'')
       = Inr (JObj [(''valid'', JBool False)])
   \<and> (\<exists>props. getState (snd (VerifyProof SingleSignal rejecting_host (ctx_of st_issued ''tx3'') ''u1'' sample_proof ''["1"]''))
                     (compositeKey ''verification'' [''u1'', ''tx3'']) = Some (JObj props)
            \<and> map_of props ''valid'' = Some (JBool False))\<close>
    using p R [of \<open>''["1"]''\<close>] unfolding t by blast
  have w: \<open>VerifyProof SingleSignal rejecting_host (ctx_of st_issued ''tx3'') [] sample_proof ''["1"]''
       = (Inl KeyAttributeEmpty, ctx_of st_issued ''tx3'')\<close>
    using p verification_record_only_on_accept
      [of rejecting_host "ctx_of st_issued ''tx3''" "[]" "''18''" sample_proof \<open>''["1"]''\<close> SingleSignal]
    by blast
  show ?thesis
    using r1 r3 a1 a3 p x1 x3 y1 y3 z w by simp
qed


theorem revocation_one_way_witness:
  "revoked st_revoked ''u1''
   \<and> stored_hash st_revoked ''u1'' = Some (JStr ''111'')
   \<and> distinct (map fst st_revoked)
   \<and> revoked (run ThreeSignal st_revoked [tx_issue, tx_revoke]) ''u1''
   \<and> stored_hash (run ThreeSignal st_revoked [tx_issue, tx_revoke]) ''u1'' = Some (JStr ''111'')
   \<and> distinct (map fst (run ThreeSignal st_revoked [tx_issue, tx_revoke]))"
proof -
  have a: "revoked st_revoked ''u1''" by (simp add: revoked_def st_revoked_def)
  have b: "stored_hash st_revoked ''u1'' = Some (JStr ''111'')"
    by (simp add: stored_hash_def st_revoked_def)
  have c: "distinct (map fst st_revoked)" by (simp add: st_revoked_def)
  show ?thesis
    using a b c revocation_one_way [of st_revoked "''u1''" ThreeSignal "[tx_issue, tx_revoke]"]
    by blast
qed

end
